theory Spec2Isabelle
  imports Main "HOL-Library.Word"
begin

section \<open>Column-store search: \<^verbatim>\<open>src/btree/col_srch.c\<close>\<close>

text \<open>
  A shallow embedding of \<^verbatim>\<open>__check_leaf_key_range\<close> and \<^verbatim>\<open>__wt_col_search\<close>.
  Pointers to \<^verbatim>\<open>WT_REF\<close> and \<^verbatim>\<open>WT_PAGE\<close> are addresses into a store; a pointer that
  may be \<^verbatim>\<open>NULL\<close> is an \<open>option\<close>. Record numbers are \<^verbatim>\<open>uint64_t\<close>, page-index
  positions and slots are \<^verbatim>\<open>uint32_t\<close>; both are words, so \<open>+\<close> and \<open>-\<close> wrap as in C.
  A read outside a page-index array is undefined behaviour in C and is the error
  \<open>Fault\<close> here. The \<^verbatim>\<open>WT_ASSERT\<close> lines are diagnostic-build checks and generate no code.
\<close>

subsection \<open>Data\<close>

type_synonym u32 = "32 word"
type_synonym u64 = "64 word"
type_synonym ref_ptr = nat
type_synonym page_ptr = nat

definition UINT32_MAX :: u32 where
  "UINT32_MAX = 4294967295"

definition UINT64_MAX :: u64 where
  "UINT64_MAX = 18446744073709551615"

text \<open>
  \<^verbatim>\<open>WT_INSERT\<close>: an entry of an insert skiplist. \<^verbatim>\<open>WT_INSERT_RECNO(ins)\<close> is the field
  \<open>ins_recno\<close>; \<open>ins_upd\<close> stands for the update payload, which the search never reads.
  A \<^verbatim>\<open>WT_INSERT_HEAD\<close> is the list of its entries.
\<close>

record wt_insert =
  ins_recno :: u64
  ins_upd :: nat

type_synonym wt_insert_head = "wt_insert list"

datatype page_type = WT_PAGE_COL_FIX | WT_PAGE_COL_INT | WT_PAGE_COL_VAR

text \<open>
  \<^verbatim>\<open>WT_PAGE\<close>, with the union of the C struct flattened: the code reads \<^verbatim>\<open>page->type\<close>
  and then the fields of the matching variant. \<open>pg_intl_index\<close> is the page index that
  \<^verbatim>\<open>WT_INTL_INDEX_GET\<close> loads: the array \<^verbatim>\<open>index\<close>, whose length is \<^verbatim>\<open>entries\<close>.
  \<open>pg_fix_entries\<close> is an unsigned count that the code adds to a \<^verbatim>\<open>uint64_t\<close>; it is kept
  at 64 bits, which covers every narrower unsigned declaration. The last three fields are
  what the macros \<^verbatim>\<open>WT_COL_UPDATE_SINGLE(page)\<close>, \<^verbatim>\<open>WT_COL_UPDATE_SLOT(page, slot)\<close> and
  \<^verbatim>\<open>WT_COL_APPEND(page)\<close> read from the page; each may be \<^verbatim>\<open>NULL\<close>.
\<close>

record wt_page =
  pg_type :: page_type
  pg_intl_recno :: u64
  pg_intl_index :: "ref_ptr list"
  pg_fix_recno :: u64
  pg_fix_entries :: u64
  pg_var_recno :: u64
  col_update_single :: "wt_insert_head option"
  col_update_slot :: "u32 \<Rightarrow> wt_insert_head option"
  col_append :: "wt_insert_head option"

record wt_ref =
  ref_page :: page_ptr
  ref_home :: "page_ptr option"
  ref_key_recno :: u64
  ref_pindex_hint :: u32

record store =
  ref_at :: "ref_ptr \<Rightarrow> wt_ref"
  page_at :: "page_ptr \<Rightarrow> wt_page"

text \<open>
  \<^verbatim>\<open>WT_CURSOR_BTREE\<close>, the fields the search writes. \<open>cbt_max_record\<close> is the
  \<^verbatim>\<open>WT_CBT_MAX_RECORD\<close> bit of \<^verbatim>\<open>cbt->flags\<close>. The scratch arrays \<^verbatim>\<open>ins_stack\<close> and
  \<^verbatim>\<open>next_stack\<close> are written by the skiplist probe only, never read by this file, and are
  left out.
\<close>

record wt_cursor_btree =
  cbt_ref :: "ref_ptr option"
  cbt_recno :: u64
  cbt_slot :: u32
  cbt_compare :: int
  cbt_ins_head :: "wt_insert_head option"
  cbt_ins :: "wt_insert option"
  cbt_max_record :: bool

record wt_btree =
  bt_root :: ref_ptr
  bt_maximum_depth :: int

datatype wt_error = Fault | Err int

text \<open>
  The collaborators the search calls and that live in other files, taken as parameters.
  \<open>'w\<close> is the state of the page cache and of the other threads, which \<^verbatim>\<open>__wt_page_swap\<close>
  and \<^verbatim>\<open>__wt_page_release\<close> may change and \<^verbatim>\<open>__wt_split_intl_race\<close> reads.
  \<open>col_var_search\<close> returns the slot \<^verbatim>\<open>WT_COL_SLOT(page, cip)\<close> of the entry found, \<open>None\<close>
  for \<^verbatim>\<open>NULL\<close>. \<open>wt_restart\<close> is the constant \<^verbatim>\<open>WT_RESTART\<close>.
\<close>

record 'w collab =
  wt_restart :: int
  split_intl_race :: "'w \<Rightarrow> page_ptr option \<Rightarrow> ref_ptr list \<Rightarrow> bool"
  page_release :: "'w \<Rightarrow> ref_ptr \<Rightarrow> int \<times> 'w"
  page_swap :: "'w \<Rightarrow> ref_ptr \<Rightarrow> ref_ptr \<Rightarrow> int \<times> 'w"
  col_var_search :: "wt_page \<Rightarrow> u64 \<Rightarrow> u32 option"
  col_var_last_recno :: "wt_page \<Rightarrow> u64"
  col_insert_search :: "wt_insert_head option \<Rightarrow> u64 \<Rightarrow> wt_insert option"

subsection \<open>Page-index access\<close>

definition entries :: "ref_ptr list \<Rightarrow> u32" where
  "entries pindex = word_of_nat (length pindex)"

definition index_get :: "ref_ptr list \<Rightarrow> u32 \<Rightarrow> ref_ptr option" where
  "index_get pindex i = (if unat i < length pindex then Some (pindex ! unat i) else None)"

definition key_of :: "store \<Rightarrow> ref_ptr \<Rightarrow> u64" where
  "key_of s r = ref_key_recno (ref_at s r)"

subsection \<open>\<^verbatim>\<open>__check_leaf_key_range\<close>\<close>

definition check_leaf_key_range ::
  "store \<Rightarrow> u64 \<Rightarrow> ref_ptr \<Rightarrow> wt_cursor_btree \<Rightarrow> wt_error + wt_cursor_btree" where
  "check_leaf_key_range s recno leaf cbt =
     (if recno < key_of s leaf then Inr (cbt\<lparr>cbt_compare := 1\<rparr>)
      else case ref_home (ref_at s leaf) of
        None \<Rightarrow> Inl Fault
      | Some home \<Rightarrow>
          let pindex = pg_intl_index (page_at s home);
              indx = ref_pindex_hint (ref_at s leaf)
          in if indx + 1 < entries pindex then
               (case index_get pindex indx of
                  None \<Rightarrow> Inl Fault
                | Some r \<Rightarrow>
                    if r = leaf then
                      (case index_get pindex (indx + 1) of
                         None \<Rightarrow> Inl Fault
                       | Some nxt \<Rightarrow>
                           if recno \<ge> key_of s nxt then Inr (cbt\<lparr>cbt_compare := - 1\<rparr>)
                           else Inr (cbt\<lparr>cbt_compare := 0\<rparr>))
                    else Inr (cbt\<lparr>cbt_compare := 0\<rparr>))
             else Inr (cbt\<lparr>cbt_compare := 0\<rparr>))"

subsection \<open>Selecting the child of an internal page\<close>

text \<open>
  The binary search of lines 139-150. The state is \<^verbatim>\<open>base\<close>, \<^verbatim>\<open>limit\<close> and \<^verbatim>\<open>descent\<close>;
  \<^verbatim>\<open>continue\<close> and the end of the body both run \<^verbatim>\<open>limit >>= 1\<close>. The result is the state
  at the loop's exit, \<open>None\<close> after a read outside the array.
\<close>

function intl_bsearch ::
  "store \<Rightarrow> ref_ptr list \<Rightarrow> u64 \<Rightarrow> u32 \<Rightarrow> u32 \<Rightarrow> ref_ptr \<Rightarrow> (u32 \<times> ref_ptr) option" where
  "intl_bsearch s pindex recno base limit descent =
     (if limit = 0 then Some (base, descent)
      else
        let indx = base + drop_bit 1 limit
        in case index_get pindex indx of
             None \<Rightarrow> None
           | Some d \<Rightarrow>
               if recno = key_of s d then Some (base, d)
               else if recno < key_of s d then
                 intl_bsearch s pindex recno base (drop_bit 1 limit) d
               else
                 intl_bsearch s pindex recno (indx + 1) (drop_bit 1 (limit - 1)) d)"
  by pat_completeness auto
termination
  apply (relation "measure (\<lambda>(s, pindex, recno, base, limit, descent). unat limit)")
    apply simp
  subgoal for s pindex recno base limit
    using unat_gt_0 [of limit] by (simp add: unat_div drop_bit_eq_div)
  subgoal for s pindex recno base limit
    using unat_gt_0 [of limit] by (simp add: unat_div drop_bit_eq_div unat_minus_one)
  done

text \<open>The label \<^verbatim>\<open>descend\<close>, lines 158-166: the slot used for the next step down.\<close>

definition descend_slot ::
  "store \<Rightarrow> ref_ptr list \<Rightarrow> u64 \<Rightarrow> u32 \<Rightarrow> ref_ptr \<Rightarrow> ref_ptr option" where
  "descend_slot s pindex recno base descent =
     (if recno \<noteq> key_of s descent then index_get pindex (base - 1) else Some descent)"

text \<open>
  Lines 119-166 of one visit to an internal page, the split-race test apart: the
  fast path for appends, otherwise the binary search, then the label \<^verbatim>\<open>descend\<close>.
\<close>

definition intl_select :: "store \<Rightarrow> ref_ptr list \<Rightarrow> u64 \<Rightarrow> ref_ptr option" where
  "intl_select s pindex recno =
     (let base = entries pindex
      in case index_get pindex (base - 1) of
           None \<Rightarrow> None
         | Some descent \<Rightarrow>
             if recno \<ge> key_of s descent then descend_slot s pindex recno base descent
             else
               (case intl_bsearch s pindex recno 0 (entries pindex - 1) descent of
                  None \<Rightarrow> None
                | Some (base', descent') \<Rightarrow> descend_slot s pindex recno base' descent'))"

subsection \<open>The descent through the internal pages\<close>

text \<open>
  The loop of lines 108-181, entered at the label \<^verbatim>\<open>restart_page\<close> with the current
  reference, the parent's page index (\<open>None\<close> for \<^verbatim>\<open>NULL\<close>) and the depth. The jump to
  \<^verbatim>\<open>restart_root\<close> is the call at the root with no parent index and depth 2; the
  \<^verbatim>\<open>continue\<close> after a successful swap is the call at the child one level deeper, with
  this page's index as the parent's. The split-race test of lines 129-134 stands under
  the fast-path condition and is made first; \<open>intl_select\<close> then takes the fast path
  again. The store is the tree as the search sees it; what
  other threads do shows only in the answers of the collaborators. Nothing bounds the
  number of restarts, so the loop is a partial function: \<open>None\<close> is a run that never
  leaves the loop.
\<close>

partial_function (option) col_search_intl ::
  "store \<Rightarrow> 'w collab \<Rightarrow> ref_ptr \<Rightarrow> u64 \<Rightarrow> 'w \<Rightarrow> ref_ptr \<Rightarrow> ref_ptr list option \<Rightarrow> int
    \<Rightarrow> (wt_error + ref_ptr \<times> int \<times> 'w) option" where
  "col_search_intl s c root recno w current parent_pindex depth =
     (let page = page_at s (ref_page (ref_at s current))
      in if pg_type page \<noteq> WT_PAGE_COL_INT then Some (Inr (current, depth, w))
         else
           let pindex = pg_intl_index page;
               base = entries pindex
           in case index_get pindex (base - 1) of
                None \<Rightarrow> Some (Inl Fault)
              | Some descent \<Rightarrow>
                  if recno \<ge> key_of s descent \<and>
                     (case parent_pindex of
                        None \<Rightarrow> False
                      | Some pp \<Rightarrow> split_intl_race c w (ref_home (ref_at s current)) pp)
                  then
                    (case page_release c w current of
                       (ret, w') \<Rightarrow>
                         if ret \<noteq> 0 then Some (Inl (Err ret))
                         else col_search_intl s c root recno w' root None 2)
                  else
                    (case intl_select s pindex recno of
                       None \<Rightarrow> Some (Inl Fault)
                     | Some descent' \<Rightarrow>
                         (case page_swap c w current descent' of
                            (ret, w') \<Rightarrow>
                              if ret = 0 then
                                col_search_intl s c root recno w' descent' (Some pindex) (depth + 1)
                              else if ret = wt_restart c then
                                col_search_intl s c root recno w' current parent_pindex depth
                              else Some (Inl (Err ret)))))"

declare col_search_intl.simps [code]

subsection \<open>The leaf page\<close>

text \<open>
  Modelled from the spec: \<^verbatim>\<open>__cursor_pos_clear\<close> is not in \<^verbatim>\<open>col_srch.c\<close>. Section 4.6 has
  "Clear the cursor" as the first step; the update pointers "stay unset" unless the
  search commits them, and the \<^verbatim>\<open>MAX_RECORD\<close> flag is set only by the search, so the
  record number, \<open>ins_head\<close>, \<open>ins\<close> and the flag are reset. \<open>ref\<close>, \<open>slot\<close> and
  \<open>compare\<close> are kept: they are what the search commits itself.
\<close>

definition cursor_pos_clear :: "wt_cursor_btree \<Rightarrow> wt_cursor_btree" where
  "cursor_pos_clear cbt =
     cbt\<lparr>cbt_recno := 0, cbt_ins_head := None, cbt_ins := None, cbt_max_record := False\<rparr>"

text \<open>Lines 245-251: the probe of the update list of a slot that is on the page.\<close>

definition update_search ::
  "'w collab \<Rightarrow> u64 \<Rightarrow> wt_insert_head option \<Rightarrow> wt_cursor_btree \<Rightarrow> wt_cursor_btree" where
  "update_search c recno ins_head cbt =
     (case col_insert_search c ins_head recno of
        None \<Rightarrow> cbt
      | Some ins \<Rightarrow>
          if recno = ins_recno ins then cbt\<lparr>cbt_ins_head := ins_head, cbt_ins := Some ins\<rparr>
          else cbt)"

text \<open>The label \<^verbatim>\<open>past_end\<close>, lines 253-292.\<close>

definition past_end ::
  "'w collab \<Rightarrow> u64 \<Rightarrow> wt_page \<Rightarrow> wt_cursor_btree \<Rightarrow> wt_cursor_btree" where
  "past_end c recno page cbt0 =
     (let cbt1 = cbt0\<lparr>cbt_ins_head := col_append page\<rparr>;
          cbt2 = cbt1\<lparr>cbt_ins :=
                   (if recno = UINT64_MAX then None
                    else col_insert_search c (cbt_ins_head cbt1) recno)\<rparr>;
          cbt3 =
            (case cbt_ins cbt2 of
               None \<Rightarrow> cbt2\<lparr>cbt_compare := - 1\<rparr>
             | Some ins \<Rightarrow>
                 let cbt' = cbt2\<lparr>cbt_recno := ins_recno ins\<rparr>
                 in if recno = cbt_recno cbt' then cbt'\<lparr>cbt_compare := 0\<rparr>
                    else if recno < cbt_recno cbt' then cbt'\<lparr>cbt_compare := 1\<rparr>
                    else cbt'\<lparr>cbt_compare := - 1\<rparr>)
      in if cbt_compare cbt3 = - 1 then cbt3\<lparr>cbt_max_record := True\<rparr> else cbt3)"

text \<open>The label \<^verbatim>\<open>leaf_only\<close>, lines 187-251; it always returns 0.\<close>

definition leaf_search ::
  "store \<Rightarrow> 'w collab \<Rightarrow> u64 \<Rightarrow> ref_ptr \<Rightarrow> wt_cursor_btree \<Rightarrow> wt_cursor_btree" where
  "leaf_search s c recno current cbt0 =
     (let page = page_at s (ref_page (ref_at s current));
          cbt = cbt0\<lparr>cbt_ref := Some current, cbt_recno := recno, cbt_compare := 0,
                  cbt_slot := UINT32_MAX\<rparr>
      in if pg_type page = WT_PAGE_COL_FIX then
           if recno < pg_fix_recno page then cbt\<lparr>cbt_compare := 1\<rparr>
           else if recno \<ge> pg_fix_recno page + pg_fix_entries page then
             past_end c recno page (cbt\<lparr>cbt_recno := pg_fix_recno page + pg_fix_entries page\<rparr>)
           else update_search c recno (col_update_single page) cbt
         else
           if recno < pg_var_recno page then cbt\<lparr>cbt_compare := 1\<rparr>
           else
             (case col_var_search c page recno of
                None \<Rightarrow> past_end c recno page (cbt\<lparr>cbt_recno := col_var_last_recno c page\<rparr>)
              | Some slot \<Rightarrow>
                  update_search c recno (col_update_slot page slot) (cbt\<lparr>cbt_slot := slot\<rparr>)))"

subsection \<open>\<^verbatim>\<open>__wt_col_search\<close>\<close>

text \<open>
  Lines 79-185, the part of \<^verbatim>\<open>__wt_col_search\<close> before the label \<^verbatim>\<open>leaf_only\<close>. It
  either returns (\<open>Returned\<close>, the early return of line 100 with the cursor as it is
  then) or arrives at \<^verbatim>\<open>leaf_only\<close> (\<open>At_leaf\<close>) with \<^verbatim>\<open>current\<close>, the cursor, the tree
  handle after the depth statistic, and the collaborators' state.
\<close>

datatype 'w position =
    Returned wt_cursor_btree
  | At_leaf ref_ptr wt_cursor_btree wt_btree 'w

definition col_search_position ::
  "store \<Rightarrow> 'w collab \<Rightarrow> wt_btree \<Rightarrow> 'w \<Rightarrow> u64 \<Rightarrow> ref_ptr option \<Rightarrow> wt_cursor_btree
    \<Rightarrow> (wt_error + 'w position) option" where
  "col_search_position s c btree w recno leaf cbt0 =
     (let cbt = cursor_pos_clear cbt0
      in case leaf of
           Some l \<Rightarrow>
             (case ref_home (ref_at s l) of
                Some home \<Rightarrow>
                  (case check_leaf_key_range s recno l cbt of
                     Inl e \<Rightarrow> Some (Inl e)
                   | Inr cbt1 \<Rightarrow>
                       if cbt_compare cbt1 \<noteq> 0 then Some (Inr (Returned (cbt1\<lparr>cbt_slot := 0\<rparr>)))
                       else Some (Inr (At_leaf l cbt1 btree w)))
              | None \<Rightarrow> Some (Inr (At_leaf l cbt btree w)))
         | None \<Rightarrow>
             (case col_search_intl s c (bt_root btree) recno w (bt_root btree) None 2 of
                None \<Rightarrow> None
              | Some (Inl e) \<Rightarrow> Some (Inl e)
              | Some (Inr (current, depth, w')) \<Rightarrow>
                  Some (Inr (At_leaf current cbt
                               (if depth > bt_maximum_depth btree
                                then btree\<lparr>bt_maximum_depth := depth\<rparr> else btree)
                               w'))))"

text \<open>
  The whole function. \<open>Some (Inr (cbt, btree, w))\<close> is the return of 0 with the cursor,
  the tree handle and the collaborators' state as the call leaves them;
  \<open>Some (Inl (Err ret))\<close> is the return of the error \<open>ret\<close>; \<open>None\<close> is a descent that
  never ends.
\<close>

definition wt_col_search ::
  "store \<Rightarrow> 'w collab \<Rightarrow> wt_btree \<Rightarrow> 'w \<Rightarrow> u64 \<Rightarrow> ref_ptr option \<Rightarrow> wt_cursor_btree
    \<Rightarrow> (wt_error + wt_cursor_btree \<times> wt_btree \<times> 'w) option" where
  "wt_col_search s c btree w recno leaf cbt0 =
     (case col_search_position s c btree w recno leaf cbt0 of
        None \<Rightarrow> None
      | Some (Inl e) \<Rightarrow> Some (Inl e)
      | Some (Inr (Returned cbt)) \<Rightarrow> Some (Inr (cbt, btree, w))
      | Some (Inr (At_leaf current cbt btree' w')) \<Rightarrow>
          Some (Inr (leaf_search s c recno current cbt, btree', w')))"

subsection \<open>The three ways through the leaf page\<close>

text \<open>
  The branch conditions of lines 213-235, named. \<open>before_page\<close>: the record is before
  the page's first record (lines 214 and 224). \<open>on_page_head\<close>: the record has a slot on
  the page, and the value is the update list the code selects for it (lines 222 and
  233). \<open>past_page\<close>: the code jumps to \<^verbatim>\<open>past_end\<close> (lines 218 and 228).
\<close>

definition on_page_head :: "'w collab \<Rightarrow> wt_page \<Rightarrow> u64 \<Rightarrow> wt_insert_head option option" where
  "on_page_head c page recno =
     (if pg_type page = WT_PAGE_COL_FIX then
        if recno < pg_fix_recno page then None
        else if recno \<ge> pg_fix_recno page + pg_fix_entries page then None
        else Some (col_update_single page)
      else
        if recno < pg_var_recno page then None
        else (case col_var_search c page recno of
                None \<Rightarrow> None
              | Some slot \<Rightarrow> Some (col_update_slot page slot)))"

definition past_page :: "'w collab \<Rightarrow> wt_page \<Rightarrow> u64 \<Rightarrow> bool" where
  "past_page c page recno =
     (if pg_type page = WT_PAGE_COL_FIX then
        \<not> recno < pg_fix_recno page \<and> recno \<ge> pg_fix_recno page + pg_fix_entries page
      else \<not> recno < pg_var_recno page \<and> col_var_search c page recno = None)"

definition before_page :: "wt_page \<Rightarrow> u64 \<Rightarrow> bool" where
  "before_page page recno =
     (if pg_type page = WT_PAGE_COL_FIX then recno < pg_fix_recno page
      else recno < pg_var_recno page)"

text \<open>
  The sign of \<open>a - b\<close> for two record numbers read as unsigned integers, the
  \<open>sign(recno - cursor.recno)\<close> of the specification.
\<close>

definition recno_sign :: "u64 \<Rightarrow> u64 \<Rightarrow> int" where
  "recno_sign a b = (if a = b then 0 else if a < b then - 1 else 1)"

subsection \<open>An example tree\<close>

text \<open>
  Modelled from the spec: the skiplist probe \<^verbatim>\<open>__col_insert_search\<close> is not in
  \<^verbatim>\<open>col_srch.c\<close>. Section 6: it "returns an entry with the greatest recno \<le> search
  recno"; on a \<^verbatim>\<open>NULL\<close> or empty head there is none. It is used in the examples only:
  the theorems hold for any probe.
\<close>

fun insert_search_list :: "wt_insert list \<Rightarrow> u64 \<Rightarrow> wt_insert option" where
  "insert_search_list [] recno = None"
| "insert_search_list (i # rest) recno =
     (case insert_search_list rest recno of
        None \<Rightarrow> (if ins_recno i \<le> recno then Some i else None)
      | Some j \<Rightarrow> (if ins_recno i \<le> recno \<and> ins_recno j < ins_recno i then Some i else Some j))"

definition spec_insert_search :: "wt_insert_head option \<Rightarrow> u64 \<Rightarrow> wt_insert option" where
  "spec_insert_search head recno =
     (case head of None \<Rightarrow> None | Some inserts \<Rightarrow> insert_search_list inserts recno)"

text \<open>
  Collaborators of a quiescent tree: no split race, every swap and release succeeds.
  A variable-length page holds ten records, one per slot.
\<close>

definition ex_collab :: "unit collab" where
  "ex_collab =
     \<lparr>wt_restart = - 31805,
      split_intl_race = (\<lambda>w home pp. False),
      page_release = (\<lambda>w r. (0, w)),
      page_swap = (\<lambda>w from to. (0, w)),
      col_var_search =
        (\<lambda>page recno. if recno - pg_var_recno page < 10
                        then Some (ucast (recno - pg_var_recno page)) else None),
      col_var_last_recno = (\<lambda>page. pg_var_recno page + 9),
      col_insert_search = spec_insert_search\<rparr>"

text \<open>
  The fixed-length page of the scenarios: records 100 to 149, with an empty update
  list and an empty append list.
\<close>

definition ex_fix_page :: wt_page where
  "ex_fix_page =
     \<lparr>pg_type = WT_PAGE_COL_FIX, pg_intl_recno = 0, pg_intl_index = [],
      pg_fix_recno = 100, pg_fix_entries = 50, pg_var_recno = 0,
      col_update_single = Some [], col_update_slot = (\<lambda>slot. None), col_append = Some []\<rparr>"

text \<open>
  Page 0 is the root, an internal page over the leaves 1 (records from 1), 2 (the
  scenario page, from 100) and 3 (a variable-length page, from 200). Page 4 is the
  scenario page with an update for record 125 and record 170 on its append list.
  References 1 to 3 are the root's children; reference 4 is the scenario page with no
  parent linked, reference 5 is page 4 with no parent linked.
\<close>

definition ex_pages :: "page_ptr \<Rightarrow> wt_page" where
  "ex_pages p =
     (if p = 0 then
        ex_fix_page\<lparr>pg_type := WT_PAGE_COL_INT, pg_intl_recno := 1, pg_intl_index := [1, 2, 3]\<rparr>
      else if p = 1 then ex_fix_page\<lparr>pg_fix_recno := 1, pg_fix_entries := 99\<rparr>
      else if p = 3 then ex_fix_page\<lparr>pg_type := WT_PAGE_COL_VAR, pg_var_recno := 200\<rparr>
      else if p = 4 then
        ex_fix_page\<lparr>col_update_single := Some [\<lparr>ins_recno = 125, ins_upd = 7\<rparr>],
                    col_append := Some [\<lparr>ins_recno = 170, ins_upd = 8\<rparr>]\<rparr>
      else ex_fix_page)"

definition ex_refs :: "ref_ptr \<Rightarrow> wt_ref" where
  "ex_refs r =
     (if r = 0 then \<lparr>ref_page = 0, ref_home = None, ref_key_recno = 1, ref_pindex_hint = 0\<rparr>
      else if r = 1 then
        \<lparr>ref_page = 1, ref_home = Some 0, ref_key_recno = 1, ref_pindex_hint = 0\<rparr>
      else if r = 2 then
        \<lparr>ref_page = 2, ref_home = Some 0, ref_key_recno = 100, ref_pindex_hint = 1\<rparr>
      else if r = 3 then
        \<lparr>ref_page = 3, ref_home = Some 0, ref_key_recno = 200, ref_pindex_hint = 2\<rparr>
      else if r = 4 then
        \<lparr>ref_page = 2, ref_home = None, ref_key_recno = 100, ref_pindex_hint = 0\<rparr>
      else \<lparr>ref_page = 4, ref_home = None, ref_key_recno = 100, ref_pindex_hint = 0\<rparr>)"

definition ex_store :: store where
  "ex_store = \<lparr>ref_at = ex_refs, page_at = ex_pages\<rparr>"

definition ex_btree :: wt_btree where
  "ex_btree = \<lparr>bt_root = 0, bt_maximum_depth = 0\<rparr>"

text \<open>A cursor that holds no position: no reference, no update pointers.\<close>

definition ex_cursor :: wt_cursor_btree where
  "ex_cursor =
     \<lparr>cbt_ref = None, cbt_recno = 0, cbt_slot = 0, cbt_compare = 0,
      cbt_ins_head = None, cbt_ins = None, cbt_max_record = False\<rparr>"

section \<open>Properties\<close>

subsection \<open>The descent step\<close>

lemma unat_shiftr1: "unat (drop_bit 1 (w :: u32)) = unat w div 2"
  by (simp add: unat_div drop_bit_eq_div)

lemma unat_add_small:
  fixes a b :: u32
  assumes "unat a + unat b < 2 ^ 32"
  shows "unat (a + b) = unat a + unat b"
  using assms by (simp add: unat_add_lem [THEN iffD1])

lemma intl_bsearch_inv:
  assumes "length pindex < 2 ^ 32"
      and "sorted_wrt (<) (map (key_of s) pindex)"
      and "key_of s (pindex ! 0) \<le> recno"
      and "unat base + unat limit < length pindex"
      and "recno < key_of s (pindex ! (unat base + unat limit))"
      and "unat base = 0 \<or> key_of s (pindex ! (unat base - 1)) < recno"
      and "key_of s descent \<noteq> recno"
  shows "\<exists>base' d. intl_bsearch s pindex recno base limit descent = Some (base', d) \<and>
           (if key_of s d = recno
            then \<exists>i. i + 1 < length pindex \<and> d = pindex ! i
            else 0 < unat base' \<and> unat base' < length pindex \<and>
                 key_of s (pindex ! (unat base' - 1)) < recno \<and>
                 recno < key_of s (pindex ! unat base'))"
  using assms
proof (induction s pindex recno base limit descent rule: intl_bsearch.induct)
  case (1 s pindex recno base limit descent)
  let ?b = "unat base" and ?l = "unat limit"
  show ?case
  proof (cases "limit = 0")
    case True
    then have l0: "?l = 0" by simp
    have "?b \<noteq> 0"
    proof
      assume "?b = 0"
      with "1.prems"(5) l0 have "recno < key_of s (pindex ! 0)" by simp
      with "1.prems"(3) show False by simp
    qed
    with "1.prems" l0 True show ?thesis
      by (subst intl_bsearch.simps) auto
  next
    case False
    then have lpos: "0 < ?l" by (simp add: unat_gt_0)
    define indx where "indx = base + drop_bit 1 limit"
    have half: "unat (drop_bit 1 limit) = ?l div 2" by (rule unat_shiftr1)
    have "?b + ?l div 2 < 2 ^ 32"
      using "1.prems"(1,4) by linarith
    then have ui: "unat indx = ?b + ?l div 2"
      unfolding indx_def using unat_add_small [of base "drop_bit 1 limit"] half by simp
    have ilt: "unat indx < ?b + ?l" using ui lpos by simp
    then have ilen: "unat indx < length pindex" using "1.prems"(4) by simp
    define d where "d = pindex ! unat indx"
    have get: "index_get pindex indx = Some d"
      using ilen by (simp add: index_get_def d_def)
    have unfold: "intl_bsearch s pindex recno base limit descent =
        (if recno = key_of s d then Some (base, d)
         else if recno < key_of s d then intl_bsearch s pindex recno base (drop_bit 1 limit) d
         else intl_bsearch s pindex recno (indx + 1) (drop_bit 1 (limit - 1)) d)"
      using False get by (subst intl_bsearch.simps) (simp add: indx_def Let_def)
    show ?thesis
    proof (cases "recno = key_of s d")
      case True
      have "unat indx + 1 < length pindex" using ilt "1.prems"(4) by simp
      with True unfold show ?thesis unfolding d_def by auto
    next
      case ne: False
      show ?thesis
      proof (cases "recno < key_of s d")
        case True
        have "\<exists>base' d'. intl_bsearch s pindex recno base (drop_bit 1 limit) d = Some (base', d') \<and>
           (if key_of s d' = recno
            then \<exists>i. i + 1 < length pindex \<and> d' = pindex ! i
            else 0 < unat base' \<and> unat base' < length pindex \<and>
                 key_of s (pindex ! (unat base' - 1)) < recno \<and>
                 recno < key_of s (pindex ! unat base'))"
        proof (rule "1.IH"(1) [OF False indx_def get ne True])
          show "length pindex < 2 ^ 32" by (rule "1.prems"(1))
          show "sorted_wrt (<) (map (key_of s) pindex)" by (rule "1.prems"(2))
          show "key_of s (pindex ! 0) \<le> recno" by (rule "1.prems"(3))
          show "unat base + unat (drop_bit 1 limit) < length pindex"
            using half ui ilen by simp
          show "recno < key_of s (pindex ! (unat base + unat (drop_bit 1 limit)))"
            using True half ui by (simp add: d_def)
          show "unat base = 0 \<or> key_of s (pindex ! (unat base - 1)) < recno"
            by (rule "1.prems"(6))
          show "key_of s d \<noteq> recno" using ne by simp
        qed
        with unfold ne True show ?thesis by simp
      next
        case gt: False
        have nl: "key_of s d < recno" using ne gt by simp
        have m1: "unat (limit - 1) = ?l - 1"
          using False by (rule unat_minus_one)
        have half': "unat (drop_bit 1 (limit - 1)) = (?l - 1) div 2"
          using unat_shiftr1 [of "limit - 1"] by (simp only: m1)
        have "unat indx + 1 < 2 ^ 32" using ilen "1.prems"(1) by linarith
        then have ui1: "unat (indx + 1) = unat indx + 1"
          using unat_add_small [of indx 1] by simp
        have sum: "unat (indx + 1) + unat (drop_bit 1 (limit - 1)) = ?b + ?l"
          using ui1 ui half' lpos by simp
        have "\<exists>base' d'. intl_bsearch s pindex recno (indx + 1) (drop_bit 1 (limit - 1)) d = Some (base', d') \<and>
           (if key_of s d' = recno
            then \<exists>i. i + 1 < length pindex \<and> d' = pindex ! i
            else 0 < unat base' \<and> unat base' < length pindex \<and>
                 key_of s (pindex ! (unat base' - 1)) < recno \<and>
                 recno < key_of s (pindex ! unat base'))"
        proof (rule "1.IH"(2) [OF False indx_def get ne gt])
          show "length pindex < 2 ^ 32" by (rule "1.prems"(1))
          show "sorted_wrt (<) (map (key_of s) pindex)" by (rule "1.prems"(2))
          show "key_of s (pindex ! 0) \<le> recno" by (rule "1.prems"(3))
          show "unat (indx + 1) + unat (drop_bit 1 (limit - 1)) < length pindex"
            using sum "1.prems"(4) by simp
          show "recno < key_of s (pindex ! (unat (indx + 1) + unat (drop_bit 1 (limit - 1))))"
            using sum "1.prems"(5) by simp
          show "unat (indx + 1) = 0 \<or> key_of s (pindex ! (unat (indx + 1) - 1)) < recno"
            using ui1 nl by (simp add: d_def)
          show "key_of s d \<noteq> recno" using ne by simp
        qed
        with unfold ne gt show ?thesis by simp
      qed
    qed
  qed
qed


lemma strict_keys_less:
  assumes "sorted_wrt (<) (map (key_of s) pindex)" and "i < j" and "j < length pindex"
  shows "key_of s (pindex ! i) < key_of s (pindex ! j)"
  using assms sorted_wrt_iff_nth_less [of "(<)" "map (key_of s) pindex"] by simp

lemma strict_keys_le:
  assumes "sorted_wrt (<) (map (key_of s) pindex)" and "i \<le> j" and "j < length pindex"
  shows "key_of s (pindex ! i) \<le> key_of s (pindex ! j)"
proof (cases "i = j")
  case True
  then show ?thesis by simp
next
  case False
  with assms strict_keys_less [of s pindex i j] show ?thesis by simp
qed

lemma covering_unique:
  assumes inc: "sorted_wrt (<) (map (key_of s) pindex)"
      and i: "i < length pindex" "key_of s (pindex ! i) \<le> recno"
             "i = length pindex - 1 \<or> recno < key_of s (pindex ! (i + 1))"
      and j: "j < length pindex" "key_of s (pindex ! j) \<le> recno"
             "j = length pindex - 1 \<or> recno < key_of s (pindex ! (j + 1))"
  shows "j = i"
proof (rule ccontr)
  assume "j \<noteq> i"
  then consider "i < j" | "j < i" by linarith
  then show False
  proof cases
    case 1
    then have "i \<noteq> length pindex - 1" using j(1) by simp
    with i(3) have "recno < key_of s (pindex ! (i + 1))" by simp
    moreover have "key_of s (pindex ! (i + 1)) \<le> key_of s (pindex ! j)"
      using strict_keys_le [OF inc, of "i + 1" j] 1 j(1) by simp
    ultimately show False using j(2) by simp
  next
    case 2
    then have "j \<noteq> length pindex - 1" using i(1) by simp
    with j(3) have "recno < key_of s (pindex ! (j + 1))" by simp
    moreover have "key_of s (pindex ! (j + 1)) \<le> key_of s (pindex ! i)"
      using strict_keys_le [OF inc, of "j + 1" i] 2 i(1) by simp
    ultimately show False using i(2) by simp
  qed
qed

lemma covering_greatest:
  assumes inc: "sorted_wrt (<) (map (key_of s) pindex)"
      and i: "i < length pindex"
             "i = length pindex - 1 \<or> recno < key_of s (pindex ! (i + 1))"
      and j: "j < length pindex" "key_of s (pindex ! j) \<le> recno"
  shows "key_of s (pindex ! j) \<le> key_of s (pindex ! i)"
proof (cases "j \<le> i")
  case True
  then show ?thesis using strict_keys_le [OF inc, of j i] i(1) by simp
next
  case False
  then have lt: "i + 1 \<le> j" by simp
  then have "i \<noteq> length pindex - 1" using j(1) by simp
  with i(2) have "recno < key_of s (pindex ! (i + 1))" by simp
  moreover have "key_of s (pindex ! (i + 1)) \<le> key_of s (pindex ! j)"
    using strict_keys_le [OF inc, of "i + 1" j] lt j(1) by simp
  ultimately show ?thesis using j(2) by simp
qed

lemma entries_unat: "length pindex < 2 ^ 32 \<Longrightarrow> unat (entries pindex) = length pindex"
  by (simp add: entries_def unat_of_nat)

lemma intl_select_index:
  assumes wf: "length pindex < 2 ^ 32"
      and inc: "sorted_wrt (<) (map (key_of s) pindex)"
      and ne: "pindex \<noteq> []"
      and first: "key_of s (pindex ! 0) \<le> recno"
  shows "\<exists>i<length pindex.
           intl_select s pindex recno = Some (pindex ! i) \<and>
           key_of s (pindex ! i) \<le> recno \<and>
           (i = length pindex - 1 \<or> recno < key_of s (pindex ! (i + 1))) \<and>
           0 < entries pindex \<and>
           (recno < key_of s (last pindex) \<longrightarrow>
              (\<exists>base d. intl_bsearch s pindex recno 0 (entries pindex - 1) (last pindex)
                           = Some (base, d) \<and>
                 (recno \<noteq> key_of s d \<longrightarrow>
                    0 < base \<and> index_get pindex (base - 1) = Some (pindex ! i))))"
proof -
  let ?n = "length pindex"
  have npos: "0 < ?n" using ne by simp
  have un: "unat (entries pindex) = ?n" using wf by (rule entries_unat)
  then have epos: "0 < entries pindex" using npos by (simp add: word_less_nat_alt)
  then have e0: "entries pindex \<noteq> 0" by simp
  have un1: "unat (entries pindex - 1) = ?n - 1"
    using unat_minus_one [OF e0] un by simp
  have lastx: "last pindex = pindex ! (?n - 1)" using ne by (simp add: last_conv_nth)
  have getl: "index_get pindex (entries pindex - 1) = Some (last pindex)"
    using un1 npos lastx by (simp add: index_get_def)
  show ?thesis
  proof (cases "recno \<ge> key_of s (last pindex)")
    case True
    then have "intl_select s pindex recno = Some (pindex ! (?n - 1))"
      using getl lastx by (simp add: intl_select_def descend_slot_def Let_def)
    with True npos epos lastx show ?thesis
      by (intro exI [of _ "?n - 1"]) auto
  next
    case False
    then have lt: "recno < key_of s (last pindex)" by simp
    have "\<exists>base' d. intl_bsearch s pindex recno 0 (entries pindex - 1) (last pindex)
                       = Some (base', d) \<and>
           (if key_of s d = recno
            then \<exists>i. i + 1 < length pindex \<and> d = pindex ! i
            else 0 < unat base' \<and> unat base' < length pindex \<and>
                 key_of s (pindex ! (unat base' - 1)) < recno \<and>
                 recno < key_of s (pindex ! unat base'))"
    proof (rule intl_bsearch_inv [OF wf inc first])
      show "unat (0 :: u32) + unat (entries pindex - 1) < length pindex"
        using un1 npos by simp
      show "recno < key_of s (pindex ! (unat (0 :: u32) + unat (entries pindex - 1)))"
        using un1 lt lastx by simp
      show "unat (0 :: u32) = 0 \<or> key_of s (pindex ! (unat (0 :: u32) - 1)) < recno"
        by simp
      show "key_of s (last pindex) \<noteq> recno" using lt by auto
    qed
    then obtain base' d where
      bs: "intl_bsearch s pindex recno 0 (entries pindex - 1) (last pindex) = Some (base', d)"
      and res: "if key_of s d = recno
            then \<exists>i. i + 1 < length pindex \<and> d = pindex ! i
            else 0 < unat base' \<and> unat base' < length pindex \<and>
                 key_of s (pindex ! (unat base' - 1)) < recno \<and>
                 recno < key_of s (pindex ! unat base')"
      by blast
    have sel: "intl_select s pindex recno = descend_slot s pindex recno base' d"
      using getl False bs by (simp add: intl_select_def Let_def)
    show ?thesis
    proof (cases "key_of s d = recno")
      case True
      with res obtain i where i: "i + 1 < ?n" "d = pindex ! i" by auto
      have "recno < key_of s (pindex ! (i + 1))"
        using strict_keys_less [OF inc, of i "i + 1"] i True by simp
      moreover have "intl_select s pindex recno = Some (pindex ! i)"
        using sel True i by (simp add: descend_slot_def)
      ultimately show ?thesis
        using i True epos bs by (intro exI [of _ i]) auto
    next
      case False
      with res have b: "0 < unat base'" "unat base' < ?n"
        "key_of s (pindex ! (unat base' - 1)) < recno"
        "recno < key_of s (pindex ! unat base')" by simp_all
      have b0: "base' \<noteq> 0" using b(1) by (simp add: unat_gt_0)
      have ub1: "unat (base' - 1) = unat base' - 1" using b0 by (rule unat_minus_one)
      have get: "index_get pindex (base' - 1) = Some (pindex ! (unat base' - 1))"
        using ub1 b(2) by (simp add: index_get_def)
      have "intl_select s pindex recno = Some (pindex ! (unat base' - 1))"
        using sel False get by (auto simp: descend_slot_def)
      moreover have "0 < base'" using b0 by (simp add: word_neq_0_conv)
      ultimately show ?thesis
        using b get epos bs by (intro exI [of _ "unat base' - 1"]) auto
    qed
  qed
qed

text \<open>
  C1. On an internal page whose children have strictly increasing \<open>key.recno\<close> and whose
  first child has \<open>index[0].key.recno \<le> recno\<close>, one descent step (the fast path at the
  right edge, otherwise the binary search over \<open>[0, entries - 1)\<close>) selects the child
  \<open>i\<close> with \<open>index[i].key.recno \<le> recno\<close> and \<open>i = entries - 1\<close> or
  \<open>recno < index[i+1].key.recno\<close>; that child is unique and has the greatest key not above
  \<open>recno\<close>. When the binary search ends without an equal key, \<open>base > 0\<close> and
  \<open>index[base - 1]\<close> is that child. The page index has fewer than \<open>2^32\<close> entries, as
  its \<^verbatim>\<open>uint32_t\<close> count requires.
\<close>

theorem intl_select_covering:
  assumes wf: "length pindex < 2 ^ 32"
      and inc: "sorted_wrt (<) (map (key_of s) pindex)"
      and ne: "pindex \<noteq> []"
      and first: "key_of s (pindex ! 0) \<le> recno"
  shows "\<exists>i<length pindex.
           intl_select s pindex recno = Some (pindex ! i) \<and>
           key_of s (pindex ! i) \<le> recno \<and>
           (i = length pindex - 1 \<or> recno < key_of s (pindex ! (i + 1))) \<and>
           (\<forall>j<length pindex.
              key_of s (pindex ! j) \<le> recno \<and>
              (j = length pindex - 1 \<or> recno < key_of s (pindex ! (j + 1))) \<longrightarrow> j = i) \<and>
           (\<forall>j<length pindex.
              key_of s (pindex ! j) \<le> recno \<longrightarrow> key_of s (pindex ! j) \<le> key_of s (pindex ! i)) \<and>
           0 < entries pindex \<and>
           (recno < key_of s (last pindex) \<longrightarrow>
              (\<exists>base d. intl_bsearch s pindex recno 0 (entries pindex - 1) (last pindex)
                           = Some (base, d) \<and>
                 (recno \<noteq> key_of s d \<longrightarrow>
                    0 < base \<and> index_get pindex (base - 1) = Some (pindex ! i))))"
proof -
  from intl_select_index [OF wf inc ne first] obtain i where
    i: "i < length pindex" "intl_select s pindex recno = Some (pindex ! i)"
       "key_of s (pindex ! i) \<le> recno"
       "i = length pindex - 1 \<or> recno < key_of s (pindex ! (i + 1))"
       "0 < entries pindex"
       "recno < key_of s (last pindex) \<longrightarrow>
          (\<exists>base d. intl_bsearch s pindex recno 0 (entries pindex - 1) (last pindex)
                       = Some (base, d) \<and>
             (recno \<noteq> key_of s d \<longrightarrow>
                0 < base \<and> index_get pindex (base - 1) = Some (pindex ! i)))"
    by blast
  have uniq: "\<forall>j<length pindex.
      key_of s (pindex ! j) \<le> recno \<and>
      (j = length pindex - 1 \<or> recno < key_of s (pindex ! (j + 1))) \<longrightarrow> j = i"
    using covering_unique [OF inc i(1) i(3) i(4)] by blast
  have great: "\<forall>j<length pindex.
      key_of s (pindex ! j) \<le> recno \<longrightarrow> key_of s (pindex ! j) \<le> key_of s (pindex ! i)"
    using covering_greatest [OF inc i(1) i(4)] by blast
  show ?thesis
    by (rule exI [of _ i], intro conjI) (fact i uniq great)+
qed


lemma ex_key [simp]: "key_of ex_store r = ref_key_recno (ex_refs r)"
  by (simp add: key_of_def ex_store_def)

theorem intl_select_covering_witness:
  "length [1, 2, 3 :: ref_ptr] < 2 ^ 32 \<and>
   sorted_wrt (<) (map (key_of ex_store) [1, 2, 3]) \<and>
   key_of ex_store ([1, 2, 3] ! 0) \<le> 150 \<and>
   intl_select ex_store [1, 2, 3] 150 = Some 2 \<and>
   (\<exists>i<length [1, 2, 3 :: ref_ptr].
      intl_select ex_store [1, 2, 3] 150 = Some ([1, 2, 3] ! i) \<and>
      key_of ex_store ([1, 2, 3] ! i) \<le> 150 \<and>
      (i = length [1, 2, 3 :: ref_ptr] - 1 \<or> 150 < key_of ex_store ([1, 2, 3] ! (i + 1))))"
proof -
  have h1: "length [1, 2, 3 :: ref_ptr] < 2 ^ 32" by simp
  have h2: "sorted_wrt (<) (map (key_of ex_store) [1, 2, 3])"
    by (simp add: ex_refs_def)
  have h3: "[1, 2, 3 :: ref_ptr] \<noteq> []" by simp
  have h4: "key_of ex_store ([1, 2, 3] ! 0) \<le> 150"
    by (simp add: ex_refs_def)
  have ev: "intl_select ex_store [1, 2, 3] 150 = Some 2"
    by (simp add: intl_select_def entries_def index_get_def descend_slot_def ex_refs_def Let_def)
  from intl_select_covering [OF h1 h2 h3 h4] obtain i where
    "i < length [1, 2, 3 :: ref_ptr]"
    "intl_select ex_store [1, 2, 3] 150 = Some ([1, 2, 3] ! i)"
    "key_of ex_store ([1, 2, 3] ! i) \<le> 150"
    "i = length [1, 2, 3 :: ref_ptr] - 1 \<or> 150 < key_of ex_store ([1, 2, 3] ! (i + 1))"
    by blast
  with h1 h2 h4 ev show ?thesis by blast
qed

subsection \<open>The cursor after the search\<close>

lemma check_leaf_key_range_result:
  assumes "check_leaf_key_range s recno l cbt = Inr cbt1"
  shows "cbt1 = cbt\<lparr>cbt_compare := cbt_compare cbt1\<rparr> \<and> cbt_compare cbt1 \<in> {- 1, 0, 1}"
  using assms
  by (auto simp: check_leaf_key_range_def Let_def split: if_splits option.splits)

lemma cleared_fields:
  "cbt_ins_head (cursor_pos_clear cbt) = None"
  "cbt_ins (cursor_pos_clear cbt) = None"
  "cbt_max_record (cursor_pos_clear cbt) = False"
  "cbt_ref (cursor_pos_clear cbt) = cbt_ref cbt"
  by (simp_all add: cursor_pos_clear_def)

lemma position_at_leaf:
  assumes "col_search_position s c btree w recno leaf cbt = Some (Inr (At_leaf cur cbt1 btree' w'))"
  shows "cbt_ins_head cbt1 = None \<and> cbt_ins cbt1 = None \<and> \<not> cbt_max_record cbt1"
proof (cases leaf)
  case None
  with assms have "cbt1 = cursor_pos_clear cbt"
    by (auto simp: col_search_position_def Let_def split: option.splits sum.splits prod.splits)
  then show ?thesis by (simp add: cleared_fields)
next
  case (Some l)
  show ?thesis
  proof (cases "ref_home (ref_at s l)")
    case None
    with Some assms have "cbt1 = cursor_pos_clear cbt"
      by (simp add: col_search_position_def Let_def)
    then show ?thesis by (simp add: cleared_fields)
  next
    case (Some home)
    with \<open>leaf = Some l\<close> assms have "check_leaf_key_range s recno l (cursor_pos_clear cbt) = Inr cbt1"
      by (auto simp: col_search_position_def Let_def split: sum.splits if_splits)
    from check_leaf_key_range_result [OF this]
    have "cbt1 = (cursor_pos_clear cbt)\<lparr>cbt_compare := cbt_compare cbt1\<rparr>" by simp
    then have "cbt_ins_head cbt1 = cbt_ins_head (cursor_pos_clear cbt)"
      "cbt_ins cbt1 = cbt_ins (cursor_pos_clear cbt)"
      "cbt_max_record cbt1 = cbt_max_record (cursor_pos_clear cbt)"
      by (metis wt_cursor_btree.select_convs wt_cursor_btree.surjective wt_cursor_btree.update_convs(4))+
    then show ?thesis by (simp add: cleared_fields)
  qed
qed

lemma position_returned:
  assumes "col_search_position s c btree w recno leaf cbt = Some (Inr (Returned cbt1))"
  shows "\<exists>l home. leaf = Some l \<and> ref_home (ref_at s l) = Some home \<and>
           cbt_compare cbt1 \<in> {- 1, 1} \<and>
           cbt1 = (cursor_pos_clear cbt)\<lparr>cbt_compare := cbt_compare cbt1, cbt_slot := 0\<rparr>"
proof (cases leaf)
  case None
  with assms show ?thesis
    by (auto simp: col_search_position_def Let_def split: option.splits sum.splits prod.splits)
next
  case (Some l)
  show ?thesis
  proof (cases "ref_home (ref_at s l)")
    case None
    with Some assms show ?thesis
      by (simp add: col_search_position_def Let_def)
  next
    case (Some home)
    with \<open>leaf = Some l\<close> assms obtain cbt0 where
      chk: "check_leaf_key_range s recno l (cursor_pos_clear cbt) = Inr cbt0"
      and ne: "cbt_compare cbt0 \<noteq> 0" and eq: "cbt1 = cbt0\<lparr>cbt_slot := 0\<rparr>"
      by (auto simp: col_search_position_def Let_def split: sum.splits if_splits)
    from check_leaf_key_range_result [OF chk]
    have r: "cbt0 = (cursor_pos_clear cbt)\<lparr>cbt_compare := cbt_compare cbt0\<rparr>"
      "cbt_compare cbt0 \<in> {- 1, 0, 1}" by simp_all
    have c: "cbt_compare cbt1 = cbt_compare cbt0" using eq by simp
    have "cbt1 = (cursor_pos_clear cbt)\<lparr>cbt_compare := cbt_compare cbt1, cbt_slot := 0\<rparr>"
      using eq r(1) c by simp
    with Some \<open>leaf = Some l\<close> ne r(2) c show ?thesis by auto
  qed
qed

lemma col_search_at_leaf:
  assumes "col_search_position s c btree w recno leaf cbt = Some (Inr (At_leaf cur cbt1 btree' w'))"
  shows "wt_col_search s c btree w recno leaf cbt = Some (Inr (leaf_search s c recno cur cbt1, btree', w'))"
  using assms by (simp add: wt_col_search_def)

lemma col_search_success:
  assumes "wt_col_search s c btree w recno leaf cbt = Some (Inr (cbt', btree', w'))"
  shows "col_search_position s c btree w recno leaf cbt = Some (Inr (Returned cbt')) \<or>
         (\<exists>cur cbt1. col_search_position s c btree w recno leaf cbt
                        = Some (Inr (At_leaf cur cbt1 btree' w')) \<and>
                      cbt' = leaf_search s c recno cur cbt1)"
  using assms
  by (auto simp: wt_col_search_def split: option.splits sum.splits position.splits)


lemma past_end_fields:
  fixes c :: "'w collab"
  defines "m \<equiv> \<lambda>page recno. (if recno = UINT64_MAX then None
                               else col_insert_search c (col_append page) recno)"
  shows "cbt_ins_head (past_end c recno page cbt) = col_append page"
    and "cbt_ins (past_end c recno page cbt) = m page recno"
    and "cbt_compare (past_end c recno page cbt) =
           (case m page recno of None \<Rightarrow> - 1 | Some i \<Rightarrow> recno_sign (ins_recno i) recno)"
    and "cbt_recno (past_end c recno page cbt) =
           (case m page recno of None \<Rightarrow> cbt_recno cbt | Some i \<Rightarrow> ins_recno i)"
    and "cbt_max_record (past_end c recno page cbt) =
           (cbt_max_record cbt \<or> cbt_compare (past_end c recno page cbt) = - 1)"
    and "cbt_ref (past_end c recno page cbt) = cbt_ref cbt"
    and "cbt_slot (past_end c recno page cbt) = cbt_slot cbt"
  unfolding m_def
  by (auto simp: past_end_def Let_def recno_sign_def split: option.splits)

lemma update_search_fields:
  shows "cbt_ins (update_search c recno head cbt) =
           (case col_insert_search c head recno of
              None \<Rightarrow> cbt_ins cbt
            | Some i \<Rightarrow> if recno = ins_recno i then Some i else cbt_ins cbt)"
    and "cbt_ins_head (update_search c recno head cbt) =
           (case col_insert_search c head recno of
              None \<Rightarrow> cbt_ins_head cbt
            | Some i \<Rightarrow> if recno = ins_recno i then head else cbt_ins_head cbt)"
    and "cbt_compare (update_search c recno head cbt) = cbt_compare cbt"
    and "cbt_recno (update_search c recno head cbt) = cbt_recno cbt"
    and "cbt_max_record (update_search c recno head cbt) = cbt_max_record cbt"
    and "cbt_ref (update_search c recno head cbt) = cbt_ref cbt"
    and "cbt_slot (update_search c recno head cbt) = cbt_slot cbt"
  by (auto simp: update_search_def split: option.splits)

lemma leaf_search_before:
  assumes "before_page (page_at s (ref_page (ref_at s cur))) recno"
  shows "leaf_search s c recno cur cbt =
           cbt\<lparr>cbt_ref := Some cur, cbt_recno := recno, cbt_compare := 1, cbt_slot := UINT32_MAX\<rparr>"
  using assms by (auto simp: leaf_search_def before_page_def Let_def split: if_splits)

lemma leaf_search_on_page:
  assumes "on_page_head c (page_at s (ref_page (ref_at s cur))) recno = Some head"
  shows "leaf_search s c recno cur cbt =
           update_search c recno head
             (cbt\<lparr>cbt_ref := Some cur, cbt_recno := recno, cbt_compare := 0,
                  cbt_slot := (if pg_type (page_at s (ref_page (ref_at s cur))) = WT_PAGE_COL_FIX
                               then UINT32_MAX
                               else case col_var_search c (page_at s (ref_page (ref_at s cur))) recno of
                                      None \<Rightarrow> UINT32_MAX | Some slot \<Rightarrow> slot)\<rparr>)"
  using assms
  by (auto simp: leaf_search_def on_page_head_def Let_def split: if_splits option.splits)

lemma leaf_search_past:
  assumes "past_page c (page_at s (ref_page (ref_at s cur))) recno"
  shows "leaf_search s c recno cur cbt =
           past_end c recno (page_at s (ref_page (ref_at s cur)))
             (cbt\<lparr>cbt_ref := Some cur, cbt_recno := recno, cbt_compare := 0,
                  cbt_slot := UINT32_MAX,
                  cbt_recno := (if pg_type (page_at s (ref_page (ref_at s cur))) = WT_PAGE_COL_FIX
                                then pg_fix_recno (page_at s (ref_page (ref_at s cur))) +
                                     pg_fix_entries (page_at s (ref_page (ref_at s cur)))
                                else col_var_last_recno c (page_at s (ref_page (ref_at s cur))))\<rparr>)"
  using assms
  by (auto simp: leaf_search_def past_page_def Let_def split: if_splits option.splits)

lemma leaf_paths:
  "before_page page recno \<or> (\<exists>head. on_page_head c page recno = Some head) \<or> past_page c page recno"
  by (auto simp: before_page_def on_page_head_def past_page_def split: option.splits)

lemma leaf_search_ref: "cbt_ref (leaf_search s c recno cur cbt) = Some cur"
  using leaf_paths [of "page_at s (ref_page (ref_at s cur))" recno c]
  by (auto simp: leaf_search_before leaf_search_on_page leaf_search_past
      past_end_fields update_search_fields)

lemma position_pinned_orphan:
  assumes "ref_home (ref_at s l) = None"
  shows "col_search_position s c btree w recno (Some l) cbt
           = Some (Inr (At_leaf l (cursor_pos_clear cbt) btree w))"
  using assms by (simp add: col_search_position_def)

lemma position_pinned_in_range:
  assumes "ref_home (ref_at s l) \<noteq> None"
      and "check_leaf_key_range s recno l (cursor_pos_clear cbt) = Inr cbt1"
      and "cbt_compare cbt1 = 0"
  shows "col_search_position s c btree w recno (Some l) cbt
           = Some (Inr (At_leaf l cbt1 btree w))"
  using assms by (auto simp: col_search_position_def)

lemma position_pinned_out_of_range:
  assumes "ref_home (ref_at s l) \<noteq> None"
      and "check_leaf_key_range s recno l (cursor_pos_clear cbt) = Inr cbt1"
      and "cbt_compare cbt1 \<noteq> 0"
  shows "col_search_position s c btree w recno (Some l) cbt
           = Some (Inr (Returned (cbt1\<lparr>cbt_slot := 0\<rparr>)))"
  using assms by (auto simp: col_search_position_def)

lemma col_search_returned:
  assumes "col_search_position s c btree w recno leaf cbt = Some (Inr (Returned cbt1))"
  shows "wt_col_search s c btree w recno leaf cbt = Some (Inr (cbt1, btree, w))"
  using assms by (simp add: wt_col_search_def)

lemma range_check_keeps_cleared:
  assumes "check_leaf_key_range s recno l (cursor_pos_clear cbt) = Inr cbt1"
  shows "cbt_ref cbt1 = cbt_ref cbt" "cbt_ins_head cbt1 = None" "cbt_ins cbt1 = None"
        "\<not> cbt_max_record cbt1"
proof -
  from check_leaf_key_range_result [OF assms]
  have eq: "cbt1 = (cursor_pos_clear cbt)\<lparr>cbt_compare := cbt_compare cbt1\<rparr>" by simp
  show "cbt_ref cbt1 = cbt_ref cbt" by (subst eq) (simp add: cleared_fields)
  show "cbt_ins_head cbt1 = None" by (subst eq) (simp add: cleared_fields)
  show "cbt_ins cbt1 = None" by (subst eq) (simp add: cleared_fields)
  show "\<not> cbt_max_record cbt1" by (subst eq) (simp add: cleared_fields)
qed

lemma spec_insert_search_empty:
  assumes "head = None \<or> head = Some []"
  shows "spec_insert_search head recno = None"
  using assms by (auto simp: spec_insert_search_def)

lemmas ex_defs = ex_store_def ex_refs_def ex_pages_def ex_fix_page_def ex_collab_def
  ex_cursor_def ex_btree_def spec_insert_search_def

lemmas eval_defs = col_search_position_def cursor_pos_clear_def check_leaf_key_range_def
  key_of_def entries_def index_get_def Let_def wt_col_search_def leaf_search_def
  update_search_def past_end_def UINT32_MAX_def UINT64_MAX_def

lemma recno_sign_flip: "recno_sign a b = - recno_sign b a"
  by (auto simp: recno_sign_def)

lemma recno_sign_sgn: "recno_sign a b = sgn (uint a - uint b)"
  by (auto simp: recno_sign_def word_less_def sgn_if word_uint_eq_iff)

text \<open>
  C2, amended. After a return of 0 the cursor's \<open>ref\<close> is set on every path that
  reaches the leaf handling: line 189 stores the leaf searched. That is the leaf the
  descent ends at when no leaf was supplied, and the pinned leaf when it has no parent
  or when its range check answered \<open>compare = 0\<close>; with a pinned leaf all of these
  searches return. The early return of line 100 (a pinned leaf with a parent, whose
  range check gave \<open>compare \<noteq> 0\<close>) sets \<open>slot = 0\<close> and does not assign \<open>ref\<close>: the
  cursor keeps the reference it had on entry, so \<open>ref\<close> is non-null there only if the
  caller's cursor already held one.
\<close>

theorem col_search_ref:
  "(\<forall>cbt' btree' w'.
      wt_col_search s c btree w recno None cbt = Some (Inr (cbt', btree', w')) \<longrightarrow>
      (\<exists>cur depth. col_search_intl s c (bt_root btree) recno w (bt_root btree) None 2
                     = Some (Inr (cur, depth, w')) \<and>
                   cbt_ref cbt' = Some cur)) \<and>
   (ref_home (ref_at s l) = None \<longrightarrow>
      (\<exists>cbt'. wt_col_search s c btree w recno (Some l) cbt = Some (Inr (cbt', btree, w)) \<and>
              cbt_ref cbt' = Some l)) \<and>
   (ref_home (ref_at s l) \<noteq> None \<and>
    check_leaf_key_range s recno l (cursor_pos_clear cbt) = Inr cbt1 \<and>
    cbt_compare cbt1 = 0 \<longrightarrow>
      (\<exists>cbt'. wt_col_search s c btree w recno (Some l) cbt = Some (Inr (cbt', btree, w)) \<and>
              cbt_ref cbt' = Some l)) \<and>
   (ref_home (ref_at s l) \<noteq> None \<and>
    check_leaf_key_range s recno l (cursor_pos_clear cbt) = Inr cbt1 \<and>
    cbt_compare cbt1 \<noteq> 0 \<longrightarrow>
      (\<exists>cbt'. wt_col_search s c btree w recno (Some l) cbt = Some (Inr (cbt', btree, w)) \<and>
              cbt_ref cbt' = cbt_ref cbt \<and> cbt_slot cbt' = 0 \<and>
              cbt_compare cbt' = cbt_compare cbt1))"
proof (intro conjI allI impI)
  fix cbt' btree' w'
  assume run: "wt_col_search s c btree w recno None cbt = Some (Inr (cbt', btree', w'))"
  then obtain cur depth where
    d: "col_search_intl s c (bt_root btree) recno w (bt_root btree) None 2
          = Some (Inr (cur, depth, w'))"
    and eq: "cbt' = leaf_search s c recno cur (cursor_pos_clear cbt)"
    by (auto simp: wt_col_search_def col_search_position_def Let_def
        split: option.splits sum.splits prod.splits)
  have "cbt_ref cbt' = Some cur" by (simp add: eq leaf_search_ref)
  with d show "\<exists>cur depth. col_search_intl s c (bt_root btree) recno w (bt_root btree) None 2
                     = Some (Inr (cur, depth, w')) \<and> cbt_ref cbt' = Some cur"
    by blast
next
  assume a: "ref_home (ref_at s l) = None"
  have "wt_col_search s c btree w recno (Some l) cbt
          = Some (Inr (leaf_search s c recno l (cursor_pos_clear cbt), btree, w))"
    by (rule col_search_at_leaf [OF position_pinned_orphan [OF a]])
  then show "\<exists>cbt'. wt_col_search s c btree w recno (Some l) cbt = Some (Inr (cbt', btree, w)) \<and>
              cbt_ref cbt' = Some l"
    by (simp add: leaf_search_ref)
next
  assume a: "ref_home (ref_at s l) \<noteq> None \<and>
    check_leaf_key_range s recno l (cursor_pos_clear cbt) = Inr cbt1 \<and> cbt_compare cbt1 = 0"
  then have "col_search_position s c btree w recno (Some l) cbt
           = Some (Inr (At_leaf l cbt1 btree w))"
    by (intro position_pinned_in_range) simp_all
  then have "wt_col_search s c btree w recno (Some l) cbt
          = Some (Inr (leaf_search s c recno l cbt1, btree, w))"
    by (rule col_search_at_leaf)
  then show "\<exists>cbt'. wt_col_search s c btree w recno (Some l) cbt = Some (Inr (cbt', btree, w)) \<and>
              cbt_ref cbt' = Some l"
    by (simp add: leaf_search_ref)
next
  assume a: "ref_home (ref_at s l) \<noteq> None \<and>
    check_leaf_key_range s recno l (cursor_pos_clear cbt) = Inr cbt1 \<and> cbt_compare cbt1 \<noteq> 0"
  then have "col_search_position s c btree w recno (Some l) cbt
           = Some (Inr (Returned (cbt1\<lparr>cbt_slot := 0\<rparr>)))"
    by (intro position_pinned_out_of_range) simp_all
  then have "wt_col_search s c btree w recno (Some l) cbt
          = Some (Inr (cbt1\<lparr>cbt_slot := 0\<rparr>, btree, w))"
    by (rule col_search_returned)
  with range_check_keeps_cleared(1) [of s recno l cbt cbt1] a
  show "\<exists>cbt'. wt_col_search s c btree w recno (Some l) cbt = Some (Inr (cbt', btree, w)) \<and>
              cbt_ref cbt' = cbt_ref cbt \<and> cbt_slot cbt' = 0 \<and>
              cbt_compare cbt' = cbt_compare cbt1"
    by simp
qed

theorem col_search_ref_witness:
  "wt_col_search ex_store ex_collab ex_btree () 125 None ex_cursor =
     Some (Inr (\<lparr>cbt_ref = Some 2, cbt_recno = 125, cbt_slot = UINT32_MAX, cbt_compare = 0,
                 cbt_ins_head = None, cbt_ins = None, cbt_max_record = False\<rparr>,
                ex_btree\<lparr>bt_maximum_depth := 3\<rparr>, ())) \<and>
   ref_home (ref_at ex_store 4) = None \<and>
   (\<exists>cbt'. wt_col_search ex_store ex_collab ex_btree () 125 (Some 4) ex_cursor
             = Some (Inr (cbt', ex_btree, ())) \<and> cbt_ref cbt' = Some 4) \<and>
   ref_home (ref_at ex_store 2) \<noteq> None \<and>
   check_leaf_key_range ex_store 125 2 (cursor_pos_clear ex_cursor) = Inr ex_cursor \<and>
   cbt_compare ex_cursor = 0 \<and>
   (\<exists>cbt'. wt_col_search ex_store ex_collab ex_btree () 125 (Some 2) ex_cursor
             = Some (Inr (cbt', ex_btree, ())) \<and> cbt_ref cbt' = Some 2) \<and>
   check_leaf_key_range ex_store 250 2 (cursor_pos_clear ex_cursor)
     = Inr (ex_cursor\<lparr>cbt_compare := - 1\<rparr>) \<and>
   cbt_compare (ex_cursor\<lparr>cbt_compare := - 1\<rparr>) \<noteq> 0 \<and>
   (\<exists>cbt'. wt_col_search ex_store ex_collab ex_btree () 250 (Some 2) ex_cursor
             = Some (Inr (cbt', ex_btree, ())) \<and>
           cbt_ref cbt' = cbt_ref ex_cursor \<and> cbt_slot cbt' = 0 \<and> cbt_compare cbt' = - 1)"
proof -
  have run: "wt_col_search ex_store ex_collab ex_btree () 125 None ex_cursor =
     Some (Inr (\<lparr>cbt_ref = Some 2, cbt_recno = 125, cbt_slot = UINT32_MAX, cbt_compare = 0,
                 cbt_ins_head = None, cbt_ins = None, cbt_max_record = False\<rparr>,
                ex_btree\<lparr>bt_maximum_depth := 3\<rparr>, ()))"
    by (simp add: eval_defs col_search_intl.simps intl_select_def descend_slot_def ex_defs)
  have h4: "ref_home (ref_at ex_store 4) = None" by (simp add: ex_defs)
  have h2: "ref_home (ref_at ex_store 2) \<noteq> None" by (simp add: ex_defs)
  have c125: "check_leaf_key_range ex_store 125 2 (cursor_pos_clear ex_cursor) = Inr ex_cursor"
    by (simp add: eval_defs ex_defs)
  have c250: "check_leaf_key_range ex_store 250 2 (cursor_pos_clear ex_cursor)
     = Inr (ex_cursor\<lparr>cbt_compare := - 1\<rparr>)"
    by (simp add: eval_defs ex_defs)
  have z: "cbt_compare ex_cursor = 0" by (simp add: ex_cursor_def)
  have nz: "cbt_compare (ex_cursor\<lparr>cbt_compare := - 1\<rparr>) \<noteq> 0" by simp
  note a = col_search_ref [of ex_store ex_collab ex_btree "()" 125 ex_cursor 4 ex_cursor]
  note b = col_search_ref [of ex_store ex_collab ex_btree "()" 125 ex_cursor 2 ex_cursor]
  note d = col_search_ref [of ex_store ex_collab ex_btree "()" 250 ex_cursor 2
      "ex_cursor\<lparr>cbt_compare := - 1\<rparr>"]
  have p4: "\<exists>cbt'. wt_col_search ex_store ex_collab ex_btree () 125 (Some 4) ex_cursor
             = Some (Inr (cbt', ex_btree, ())) \<and> cbt_ref cbt' = Some 4"
    using a h4 by simp
  have p2: "\<exists>cbt'. wt_col_search ex_store ex_collab ex_btree () 125 (Some 2) ex_cursor
             = Some (Inr (cbt', ex_btree, ())) \<and> cbt_ref cbt' = Some 2"
    using b h2 c125 z by simp
  have p250: "\<exists>cbt'. wt_col_search ex_store ex_collab ex_btree () 250 (Some 2) ex_cursor
             = Some (Inr (cbt', ex_btree, ())) \<and>
           cbt_ref cbt' = cbt_ref ex_cursor \<and> cbt_slot cbt' = 0 \<and> cbt_compare cbt' = - 1"
    using d h2 c250 nz by simp
  from run h4 p4 h2 c125 z p2 c250 nz p250 show ?thesis by (intro conjI)
qed

text \<open>
  The claim as stated fails on the early return: a cursor that holds no reference,
  a pinned leaf (reference 2, records from 100, next sibling from 200) and record 250.
\<close>

theorem col_search_ref_counterexample:
  "wt_col_search ex_store ex_collab ex_btree () 250 (Some 2) ex_cursor =
     Some (Inr (\<lparr>cbt_ref = None, cbt_recno = 0, cbt_slot = 0, cbt_compare = - 1,
                 cbt_ins_head = None, cbt_ins = None, cbt_max_record = False\<rparr>,
                ex_btree, ()))"
  by (simp add: eval_defs ex_defs)




text \<open>
  C4, amended. Scenario S1: on a fixed-length leaf with \<open>pg_fix_recno = 100\<close> and
  \<open>pg_fix_entries = 50\<close> and an empty update list, a search for 125 that reaches the
  leaf handling returns \<open>compare = 0\<close> and \<open>cursor.recno = 125\<close> with \<open>slot\<close> left at
  \<^verbatim>\<open>UINT32_MAX\<close> (line 198; the fixed-length branch never assigns the slot) and with
  \<open>ins_head\<close> and \<open>ins\<close> both null (the update list is probed, and committed on an
  exact match only). The update list is empty when its head is \<^verbatim>\<open>NULL\<close> or has no
  entry, and the probe then answers as section 6 has it; the same result holds for
  every update list in which the probe finds no entry with record number 125, the
  second alternative of the hypothesis. The append list plays no part.
\<close>

theorem fixed_on_page_search:
  assumes pos: "col_search_position s c btree w 125 leaf cbt
                  = Some (Inr (At_leaf cur cbt1 btree' w'))"
      and kind: "pg_type (page_at s (ref_page (ref_at s cur))) = WT_PAGE_COL_FIX"
      and first: "pg_fix_recno (page_at s (ref_page (ref_at s cur))) = 100"
      and count: "pg_fix_entries (page_at s (ref_page (ref_at s cur))) = 50"
      and chain:
        "((col_update_single (page_at s (ref_page (ref_at s cur))) = None \<or>
           col_update_single (page_at s (ref_page (ref_at s cur))) = Some []) \<and>
          col_insert_search c (col_update_single (page_at s (ref_page (ref_at s cur)))) 125
            = spec_insert_search (col_update_single (page_at s (ref_page (ref_at s cur)))) 125) \<or>
         (\<forall>m. col_insert_search c (col_update_single (page_at s (ref_page (ref_at s cur)))) 125
                 = Some m \<longrightarrow> ins_recno m \<noteq> 125)"
  shows "\<exists>cbt'. wt_col_search s c btree w 125 leaf cbt = Some (Inr (cbt', btree', w')) \<and>
           cbt_ref cbt' = Some cur \<and> cbt_recno cbt' = 125 \<and> cbt_compare cbt' = 0 \<and>
           cbt_slot cbt' = UINT32_MAX \<and> cbt_ins_head cbt' = None \<and> cbt_ins cbt' = None"
proof -
  let ?page = "page_at s (ref_page (ref_at s cur))"
  define r where "r = leaf_search s c 125 cur cbt1"
  from position_at_leaf [OF pos] have clr: "cbt_ins_head cbt1 = None" "cbt_ins cbt1 = None"
    by simp_all
  have head: "on_page_head c ?page 125 = Some (col_update_single ?page)"
    by (simp add: on_page_head_def kind first count)
  have nomatch: "ins_recno m \<noteq> 125"
    if "col_insert_search c (col_update_single ?page) 125 = Some m" for m
    using chain that spec_insert_search_empty [of "col_update_single ?page" 125] by auto
  have ls: "r = update_search c 125 (col_update_single ?page)
                  (cbt1\<lparr>cbt_ref := Some cur, cbt_recno := 125, cbt_compare := 0,
                        cbt_slot := UINT32_MAX\<rparr>)"
    unfolding r_def by (simp add: leaf_search_on_page [OF head] kind)
  have f: "cbt_ref r = Some cur" "cbt_recno r = 125" "cbt_compare r = 0"
    "cbt_slot r = UINT32_MAX"
    by (simp_all add: ls update_search_fields)
  have g: "cbt_ins_head r = None \<and> cbt_ins r = None"
  proof (cases "col_insert_search c (col_update_single ?page) 125")
    case None
    then show ?thesis by (simp add: ls update_search_fields clr)
  next
    case (Some m)
    from nomatch [OF Some] have "(125 :: u64) \<noteq> ins_recno m" by simp
    with Some show ?thesis by (simp add: ls update_search_fields clr)
  qed
  have "wt_col_search s c btree w 125 leaf cbt = Some (Inr (r, btree', w'))"
    unfolding r_def by (rule col_search_at_leaf [OF pos])
  with f g show ?thesis by blast
qed

theorem fixed_on_page_search_witness:
  "col_search_position ex_store ex_collab ex_btree () 125 (Some 2) ex_cursor
     = Some (Inr (At_leaf 2 ex_cursor ex_btree ())) \<and>
   col_update_single (page_at ex_store (ref_page (ref_at ex_store 2))) = Some [] \<and>
   col_insert_search ex_collab
     (col_update_single (page_at ex_store (ref_page (ref_at ex_store 2)))) 125
     = spec_insert_search (col_update_single (page_at ex_store (ref_page (ref_at ex_store 2)))) 125 \<and>
   (\<exists>cbt'. wt_col_search ex_store ex_collab ex_btree () 125 (Some 2) ex_cursor
             = Some (Inr (cbt', ex_btree, ())) \<and>
           cbt_ref cbt' = Some 2 \<and> cbt_recno cbt' = 125 \<and> cbt_compare cbt' = 0 \<and>
           cbt_slot cbt' = UINT32_MAX \<and> cbt_ins_head cbt' = None \<and> cbt_ins cbt' = None)"
proof -
  have pos: "col_search_position ex_store ex_collab ex_btree () 125 (Some 2) ex_cursor
     = Some (Inr (At_leaf 2 ex_cursor ex_btree ()))"
    by (simp add: eval_defs ex_defs)
  have kind: "pg_type (page_at ex_store (ref_page (ref_at ex_store 2))) = WT_PAGE_COL_FIX"
    by (simp add: ex_defs)
  have first: "pg_fix_recno (page_at ex_store (ref_page (ref_at ex_store 2))) = 100"
    by (simp add: ex_defs)
  have count: "pg_fix_entries (page_at ex_store (ref_page (ref_at ex_store 2))) = 50"
    by (simp add: ex_defs)
  have empty: "col_update_single (page_at ex_store (ref_page (ref_at ex_store 2))) = Some []"
    by (simp add: ex_defs)
  have probe: "col_insert_search ex_collab
     (col_update_single (page_at ex_store (ref_page (ref_at ex_store 2)))) 125
     = spec_insert_search (col_update_single (page_at ex_store (ref_page (ref_at ex_store 2)))) 125"
    by (simp add: ex_collab_def)
  have chain:
    "((col_update_single (page_at ex_store (ref_page (ref_at ex_store 2))) = None \<or>
       col_update_single (page_at ex_store (ref_page (ref_at ex_store 2))) = Some []) \<and>
      col_insert_search ex_collab
        (col_update_single (page_at ex_store (ref_page (ref_at ex_store 2)))) 125
        = spec_insert_search
            (col_update_single (page_at ex_store (ref_page (ref_at ex_store 2)))) 125) \<or>
     (\<forall>m. col_insert_search ex_collab
             (col_update_single (page_at ex_store (ref_page (ref_at ex_store 2)))) 125
             = Some m \<longrightarrow> ins_recno m \<noteq> 125)"
    using empty probe by (intro disjI1 conjI disjI2)
  from fixed_on_page_search [OF pos kind first count chain] pos empty probe show ?thesis
    by (intro conjI)
qed

text \<open>
  The scenario as stated fails: the slot is \<^verbatim>\<open>UINT32_MAX\<close>, not 25, and \<open>ins_head\<close> is
  null although the page's update list is not.
\<close>

theorem fixed_on_page_search_counterexample:
  "wt_col_search ex_store ex_collab ex_btree () 125 (Some 2) ex_cursor =
     Some (Inr (\<lparr>cbt_ref = Some 2, cbt_recno = 125, cbt_slot = 4294967295, cbt_compare = 0,
                 cbt_ins_head = None, cbt_ins = None, cbt_max_record = False\<rparr>,
                ex_btree, ())) \<and>
   (4294967295 :: u32) \<noteq> 25 \<and>
   col_update_single (page_at ex_store (ref_page (ref_at ex_store 2))) = Some [] \<and>
   col_append (page_at ex_store (ref_page (ref_at ex_store 2))) = Some [] \<and>
   pg_fix_recno (page_at ex_store (ref_page (ref_at ex_store 2))) = 100 \<and>
   pg_fix_entries (page_at ex_store (ref_page (ref_at ex_store 2))) = 50"
  by (simp add: eval_defs ex_defs)

text \<open>
  C5, amended. In the append branch, when the probe of the append list returns an
  entry \<open>m\<close>, \<open>cursor.recno = m.recno\<close> and \<open>compare\<close> is the sign of
  \<open>m.recno - recno\<close>: 0 on equality, \<open>+1\<close> when \<open>recno < m.recno\<close>, \<open>- 1\<close> when
  \<open>recno > m.recno\<close>. That is the opposite of the sign of \<open>recno - m.recno\<close>.
\<close>

theorem append_match_compare:
  assumes pos: "col_search_position s c btree w recno leaf cbt
                  = Some (Inr (At_leaf cur cbt1 btree' w'))"
      and past: "past_page c (page_at s (ref_page (ref_at s cur))) recno"
      and nmax: "recno \<noteq> UINT64_MAX"
      and probe: "col_insert_search c (col_append (page_at s (ref_page (ref_at s cur)))) recno
                    = Some m"
  shows "\<exists>cbt'. wt_col_search s c btree w recno leaf cbt = Some (Inr (cbt', btree', w')) \<and>
           cbt_ins cbt' = Some m \<and> cbt_recno cbt' = ins_recno m \<and>
           cbt_compare cbt' = recno_sign (ins_recno m) recno \<and>
           cbt_compare cbt' = - recno_sign recno (ins_recno m)"
proof -
  define r where "r = leaf_search s c recno cur cbt1"
  have run: "wt_col_search s c btree w recno leaf cbt = Some (Inr (r, btree', w'))"
    unfolding r_def by (rule col_search_at_leaf [OF pos])
  have f: "cbt_ins r = Some m" "cbt_recno r = ins_recno m"
    "cbt_compare r = recno_sign (ins_recno m) recno"
    unfolding r_def
    by (simp_all add: leaf_search_past [OF past] past_end_fields nmax probe)
  have "cbt_compare r = - recno_sign recno (ins_recno m)"
    using f(3) recno_sign_flip [of "ins_recno m" recno] by simp
  with run f show ?thesis by blast
qed

theorem append_match_compare_witness:
  "past_page ex_collab (page_at ex_store (ref_page (ref_at ex_store 5))) 200 \<and>
   (200 :: u64) \<noteq> UINT64_MAX \<and>
   col_insert_search ex_collab (col_append (page_at ex_store (ref_page (ref_at ex_store 5)))) 200
     = Some \<lparr>ins_recno = 170, ins_upd = 8\<rparr> \<and>
   (\<exists>cbt'. wt_col_search ex_store ex_collab ex_btree () 200 (Some 5) ex_cursor
             = Some (Inr (cbt', ex_btree, ())) \<and>
           cbt_recno cbt' = 170 \<and> cbt_compare cbt' = - 1)"
proof -
  have pos: "col_search_position ex_store ex_collab ex_btree () 200 (Some 5) ex_cursor
     = Some (Inr (At_leaf 5 ex_cursor ex_btree ()))"
    by (simp add: eval_defs ex_defs)
  have past: "past_page ex_collab (page_at ex_store (ref_page (ref_at ex_store 5))) 200"
    by (simp add: past_page_def ex_defs)
  have nmax: "(200 :: u64) \<noteq> UINT64_MAX"
    by (simp add: UINT64_MAX_def)
  have probe: "col_insert_search ex_collab
                 (col_append (page_at ex_store (ref_page (ref_at ex_store 5)))) 200
               = Some \<lparr>ins_recno = 170, ins_upd = 8\<rparr>"
    by (simp add: ex_defs)
  have sg: "recno_sign (ins_recno \<lparr>ins_recno = 170, ins_upd = 8\<rparr>) 200 = - 1"
    by (simp add: recno_sign_def)
  from append_match_compare [OF pos past nmax probe] sg past nmax probe show ?thesis
    by auto
qed

text \<open>
  The claim as stated fails: record 200 against the append entry 170 gives
  \<open>compare = - 1\<close>, and the sign of \<open>200 - 170\<close> is \<open>+1\<close>.
\<close>

theorem append_match_compare_counterexample:
  "wt_col_search ex_store ex_collab ex_btree () 200 (Some 5) ex_cursor =
     Some (Inr (\<lparr>cbt_ref = Some 5, cbt_recno = 170, cbt_slot = UINT32_MAX, cbt_compare = - 1,
                 cbt_ins_head = Some [\<lparr>ins_recno = 170, ins_upd = 8\<rparr>],
                 cbt_ins = Some \<lparr>ins_recno = 170, ins_upd = 8\<rparr>, cbt_max_record = True\<rparr>,
                ex_btree, ())) \<and>
   recno_sign 200 170 = 1"
  by (simp add: eval_defs ex_defs recno_sign_def)

text \<open>
  C6. For a pinned leaf with a parent, \<^verbatim>\<open>__check_leaf_key_range\<close> returns 0 and sets
  \<open>compare = 1\<close> if \<open>recno < leaf.key.recno\<close>; else \<open>compare = - 1\<close> if the hint \<open>h\<close> has
  \<open>h + 1 < entries\<close>, \<open>index[h] = leaf\<close> and \<open>recno \<ge> index[h+1].key.recno\<close>; else
  \<open>compare = 0\<close>, which covers every stale hint. The page index has fewer than \<open>2^32\<close>
  entries, as its \<^verbatim>\<open>uint32_t\<close> count requires, and the hint is a position in such an
  array, so it is below \<^verbatim>\<open>UINT32_MAX\<close> and \<open>h + 1\<close> does not wrap.
\<close>

theorem check_leaf_key_range_cases:
  assumes home: "ref_home (ref_at s leaf) = Some home"
      and wf: "length (pg_intl_index (page_at s home)) < 2 ^ 32"
      and hint: "ref_pindex_hint (ref_at s leaf) < UINT32_MAX"
  shows "check_leaf_key_range s recno leaf cbt =
           Inr (cbt\<lparr>cbt_compare :=
                  (if recno < key_of s leaf then 1
                   else if unat (ref_pindex_hint (ref_at s leaf)) + 1
                             < length (pg_intl_index (page_at s home)) \<and>
                           pg_intl_index (page_at s home) ! unat (ref_pindex_hint (ref_at s leaf))
                             = leaf \<and>
                           key_of s (pg_intl_index (page_at s home) !
                                       (unat (ref_pindex_hint (ref_at s leaf)) + 1)) \<le> recno
                        then - 1
                        else 0)\<rparr>)"
proof -
  let ?pindex = "pg_intl_index (page_at s home)"
  let ?h = "ref_pindex_hint (ref_at s leaf)"
  have "unat ?h < unat (4294967295 :: u32)"
    using hint by (simp only: word_less_nat_alt UINT32_MAX_def)
  then have hb: "unat ?h + 1 < 2 ^ 32" by simp
  then have h1: "unat (?h + 1) = unat ?h + 1"
    using unat_add_small [of ?h 1] by simp
  have lt: "(?h + 1 < entries ?pindex) = (unat ?h + 1 < length ?pindex)"
    by (simp add: word_less_nat_alt h1 entries_unat [OF wf])
  show ?thesis
  proof (cases "recno < key_of s leaf")
    case True
    then show ?thesis by (simp add: check_leaf_key_range_def)
  next
    case ge: False
    show ?thesis
    proof (cases "unat ?h + 1 < length ?pindex")
      case False
      with ge lt show ?thesis by (simp add: check_leaf_key_range_def home Let_def)
    next
      case True
      then have g0: "index_get ?pindex ?h = Some (?pindex ! unat ?h)"
        and g1: "index_get ?pindex (?h + 1) = Some (?pindex ! (unat ?h + 1))"
        by (simp_all add: index_get_def h1)
      have "?h + 1 < entries ?pindex" using lt True by simp
      with ge True g0 g1 show ?thesis
        by (simp add: check_leaf_key_range_def home Let_def not_le)
    qed
  qed
qed

theorem check_leaf_key_range_cases_witness:
  "ref_home (ref_at ex_store 2) = Some 0 \<and>
   length (pg_intl_index (page_at ex_store 0)) < 2 ^ 32 \<and>
   ref_pindex_hint (ref_at ex_store 2) < UINT32_MAX \<and>
   check_leaf_key_range ex_store 250 2 ex_cursor = Inr (ex_cursor\<lparr>cbt_compare := - 1\<rparr>) \<and>
   check_leaf_key_range ex_store 125 2 ex_cursor = Inr (ex_cursor\<lparr>cbt_compare := 0\<rparr>) \<and>
   check_leaf_key_range ex_store 50 2 ex_cursor = Inr (ex_cursor\<lparr>cbt_compare := 1\<rparr>)"
proof -
  have home: "ref_home (ref_at ex_store 2) = Some 0" by (simp add: ex_defs)
  have wf: "length (pg_intl_index (page_at ex_store 0)) < 2 ^ 32" by (simp add: ex_defs)
  have hint: "ref_pindex_hint (ref_at ex_store 2) < UINT32_MAX"
    by (simp add: ex_defs UINT32_MAX_def)
  have a: "check_leaf_key_range ex_store 250 2 ex_cursor = Inr (ex_cursor\<lparr>cbt_compare := - 1\<rparr>)"
    using check_leaf_key_range_cases [OF home wf hint, of 250 ex_cursor]
    by (simp add: key_of_def ex_store_def ex_refs_def ex_pages_def ex_fix_page_def)
  have b: "check_leaf_key_range ex_store 125 2 ex_cursor = Inr (ex_cursor\<lparr>cbt_compare := 0\<rparr>)"
    using check_leaf_key_range_cases [OF home wf hint, of 125 ex_cursor]
    by (simp add: key_of_def ex_store_def ex_refs_def ex_pages_def ex_fix_page_def)
  have c: "check_leaf_key_range ex_store 50 2 ex_cursor = Inr (ex_cursor\<lparr>cbt_compare := 1\<rparr>)"
    using check_leaf_key_range_cases [OF home wf hint, of 50 ex_cursor]
    by (simp add: key_of_def ex_store_def ex_refs_def ex_pages_def ex_fix_page_def)
  from a b c home wf hint show ?thesis by simp
qed

text \<open>
  C7. When the record has a slot on the page, the search returns with \<open>ins_head\<close> and
  \<open>ins\<close> written if and only if the probe of the selected update list returns an entry
  whose record number is the one searched for; otherwise both stay null.
\<close>

theorem update_pointers_exact_match_only:
  assumes pos: "col_search_position s c btree w recno leaf cbt
                  = Some (Inr (At_leaf cur cbt1 btree' w'))"
      and head: "on_page_head c (page_at s (ref_page (ref_at s cur))) recno = Some head"
  shows "\<exists>cbt'. wt_col_search s c btree w recno leaf cbt = Some (Inr (cbt', btree', w')) \<and>
           cbt_compare cbt' = 0 \<and>
           (case col_insert_search c head recno of
              None \<Rightarrow> cbt_ins_head cbt' = None \<and> cbt_ins cbt' = None
            | Some ins \<Rightarrow>
                if recno = ins_recno ins then cbt_ins_head cbt' = head \<and> cbt_ins cbt' = Some ins
                else cbt_ins_head cbt' = None \<and> cbt_ins cbt' = None)"
proof -
  from position_at_leaf [OF pos] have clr: "cbt_ins_head cbt1 = None" "cbt_ins cbt1 = None"
    by simp_all
  have run: "wt_col_search s c btree w recno leaf cbt
               = Some (Inr (leaf_search s c recno cur cbt1, btree', w'))"
    by (rule col_search_at_leaf [OF pos])
  define r where "r = leaf_search s c recno cur cbt1"
  have cmp: "cbt_compare r = 0"
    unfolding r_def by (simp add: leaf_search_on_page [OF head] update_search_fields)
  have ins: "cbt_ins r =
      (case col_insert_search c head recno of
         None \<Rightarrow> None
       | Some i \<Rightarrow> if recno = ins_recno i then Some i else None)"
    unfolding r_def
    by (simp add: leaf_search_on_page [OF head] update_search_fields clr split: option.splits)
  have hd: "cbt_ins_head r =
      (case col_insert_search c head recno of
         None \<Rightarrow> None
       | Some i \<Rightarrow> if recno = ins_recno i then head else None)"
    unfolding r_def
    by (simp add: leaf_search_on_page [OF head] update_search_fields clr split: option.splits)
  have "case col_insert_search c head recno of
              None \<Rightarrow> cbt_ins_head r = None \<and> cbt_ins r = None
            | Some ins \<Rightarrow>
                if recno = ins_recno ins then cbt_ins_head r = head \<and> cbt_ins r = Some ins
                else cbt_ins_head r = None \<and> cbt_ins r = None"
  proof (cases "col_insert_search c head recno")
    case None
    from ins hd have "cbt_ins r = None" "cbt_ins_head r = None"
      unfolding None by simp_all
    then show ?thesis unfolding None by simp
  next
    case (Some i)
    from ins hd have a: "cbt_ins r = (if recno = ins_recno i then Some i else None)"
      "cbt_ins_head r = (if recno = ins_recno i then head else None)"
      unfolding Some by simp_all
    show ?thesis unfolding Some by (simp add: a)
  qed
  with cmp run show ?thesis unfolding r_def by blast
qed

theorem update_pointers_exact_match_only_witness:
  "col_search_position ex_store ex_collab ex_btree () 125 (Some 5) ex_cursor
     = Some (Inr (At_leaf 5 ex_cursor ex_btree ())) \<and>
   on_page_head ex_collab (page_at ex_store (ref_page (ref_at ex_store 5))) 125
     = Some (Some [\<lparr>ins_recno = 125, ins_upd = 7\<rparr>]) \<and>
   (\<exists>cbt'. wt_col_search ex_store ex_collab ex_btree () 125 (Some 5) ex_cursor
             = Some (Inr (cbt', ex_btree, ())) \<and>
           cbt_ins_head cbt' = Some [\<lparr>ins_recno = 125, ins_upd = 7\<rparr>] \<and>
           cbt_ins cbt' = Some \<lparr>ins_recno = 125, ins_upd = 7\<rparr>)"
proof -
  have pos: "col_search_position ex_store ex_collab ex_btree () 125 (Some 5) ex_cursor
     = Some (Inr (At_leaf 5 ex_cursor ex_btree ()))"
    by (simp add: eval_defs ex_defs)
  have head: "on_page_head ex_collab (page_at ex_store (ref_page (ref_at ex_store 5))) 125
     = Some (Some [\<lparr>ins_recno = 125, ins_upd = 7\<rparr>])"
    by (simp add: on_page_head_def ex_defs)
  have probe: "col_insert_search ex_collab (Some [\<lparr>ins_recno = 125, ins_upd = 7\<rparr>]) 125
     = Some \<lparr>ins_recno = 125, ins_upd = 7\<rparr>"
    by (simp add: ex_defs)
  from update_pointers_exact_match_only [OF pos head] probe pos head show ?thesis
    by auto
qed

lemma leaf_search_probe_skipped:
  assumes "past_page c (page_at s (ref_page (ref_at s cur))) UINT64_MAX"
  shows "leaf_search s (c\<lparr>col_insert_search := probe\<rparr>) UINT64_MAX cur cbt
           = leaf_search s c UINT64_MAX cur cbt"
proof -
  have "past_page (c\<lparr>col_insert_search := probe\<rparr>) (page_at s (ref_page (ref_at s cur))) UINT64_MAX"
    using assms by (simp add: past_page_def)
  from leaf_search_past [OF this] leaf_search_past [OF assms] show ?thesis
    by (simp add: past_end_def)
qed

text \<open>
  C8, amended. A search for \<^verbatim>\<open>UINT64_MAX\<close> that reaches the leaf handling on a page
  whose end the record lies past returns \<open>ins_head = \<close> the page's append list, \<open>ins\<close>
  null, \<open>compare = - 1\<close> and the \<^verbatim>\<open>MAX_RECORD\<close> flag set; the probe is skipped, so the
  result is the same whatever the probe would answer. A search with a pinned leaf
  that has a parent and whose range check answers \<open>compare \<noteq> 0\<close> returns at line 100
  instead: \<open>compare = - 1\<close>, \<open>slot = 0\<close>, \<open>ins_head\<close> and \<open>ins\<close> null and
  \<^verbatim>\<open>MAX_RECORD\<close> clear.
\<close>

theorem max_recno_skips_probe:
  "(col_search_position s c btree w UINT64_MAX leaf cbt
      = Some (Inr (At_leaf cur cbt1 btree' w')) \<and>
    past_page c (page_at s (ref_page (ref_at s cur))) UINT64_MAX \<longrightarrow>
      (\<exists>cbt'. wt_col_search s c btree w UINT64_MAX leaf cbt = Some (Inr (cbt', btree', w')) \<and>
              cbt_ins_head cbt' = col_append (page_at s (ref_page (ref_at s cur))) \<and>
              cbt_ins cbt' = None \<and> cbt_compare cbt' = - 1 \<and> cbt_max_record cbt' \<and>
              (\<forall>probe. leaf_search s (c\<lparr>col_insert_search := probe\<rparr>) UINT64_MAX cur cbt1
                         = cbt'))) \<and>
   (ref_home (ref_at s l) \<noteq> None \<and>
    check_leaf_key_range s UINT64_MAX l (cursor_pos_clear cbt) = Inr cbt2 \<and>
    cbt_compare cbt2 \<noteq> 0 \<longrightarrow>
      (\<exists>cbt'. wt_col_search s c btree w UINT64_MAX (Some l) cbt = Some (Inr (cbt', btree, w)) \<and>
              cbt_compare cbt' = - 1 \<and> cbt_slot cbt' = 0 \<and>
              cbt_ins_head cbt' = None \<and> cbt_ins cbt' = None \<and> \<not> cbt_max_record cbt'))"
proof (intro conjI impI)
  assume a: "col_search_position s c btree w UINT64_MAX leaf cbt
      = Some (Inr (At_leaf cur cbt1 btree' w')) \<and>
    past_page c (page_at s (ref_page (ref_at s cur))) UINT64_MAX"
  then have pos: "col_search_position s c btree w UINT64_MAX leaf cbt
      = Some (Inr (At_leaf cur cbt1 btree' w'))"
    and past: "past_page c (page_at s (ref_page (ref_at s cur))) UINT64_MAX"
    by simp_all
  have run: "wt_col_search s c btree w UINT64_MAX leaf cbt
               = Some (Inr (leaf_search s c UINT64_MAX cur cbt1, btree', w'))"
    by (rule col_search_at_leaf [OF pos])
  have "cbt_ins_head (leaf_search s c UINT64_MAX cur cbt1)
          = col_append (page_at s (ref_page (ref_at s cur)))"
    "cbt_ins (leaf_search s c UINT64_MAX cur cbt1) = None"
    "cbt_compare (leaf_search s c UINT64_MAX cur cbt1) = - 1"
    "cbt_max_record (leaf_search s c UINT64_MAX cur cbt1)"
    by (simp_all add: leaf_search_past [OF past] past_end_fields)
  with run leaf_search_probe_skipped [OF past]
  show "\<exists>cbt'. wt_col_search s c btree w UINT64_MAX leaf cbt = Some (Inr (cbt', btree', w')) \<and>
              cbt_ins_head cbt' = col_append (page_at s (ref_page (ref_at s cur))) \<and>
              cbt_ins cbt' = None \<and> cbt_compare cbt' = - 1 \<and> cbt_max_record cbt' \<and>
              (\<forall>probe. leaf_search s (c\<lparr>col_insert_search := probe\<rparr>) UINT64_MAX cur cbt1
                         = cbt')"
    by blast
next
  assume a: "ref_home (ref_at s l) \<noteq> None \<and>
    check_leaf_key_range s UINT64_MAX l (cursor_pos_clear cbt) = Inr cbt2 \<and>
    cbt_compare cbt2 \<noteq> 0"
  then have chk: "check_leaf_key_range s UINT64_MAX l (cursor_pos_clear cbt) = Inr cbt2"
    by simp
  have "col_search_position s c btree w UINT64_MAX (Some l) cbt
           = Some (Inr (Returned (cbt2\<lparr>cbt_slot := 0\<rparr>)))"
    using a by (intro position_pinned_out_of_range) simp_all
  then have run: "wt_col_search s c btree w UINT64_MAX (Some l) cbt
          = Some (Inr (cbt2\<lparr>cbt_slot := 0\<rparr>, btree, w))"
    by (rule col_search_returned)
  have m: "UINT64_MAX = (- 1 :: u64)"
    by (simp add: UINT64_MAX_def)
  have "\<not> UINT64_MAX < key_of s l"
    unfolding m by (simp add: not_less)
  then have "cbt_compare cbt2 \<noteq> 1"
    using chk by (auto simp: check_leaf_key_range_def Let_def split: if_splits option.splits)
  moreover from check_leaf_key_range_result [OF chk] have "cbt_compare cbt2 \<in> {- 1, 0, 1}"
    by simp
  ultimately have "cbt_compare cbt2 = - 1" using a by auto
  with run range_check_keeps_cleared(2-4) [OF chk]
  show "\<exists>cbt'. wt_col_search s c btree w UINT64_MAX (Some l) cbt = Some (Inr (cbt', btree, w)) \<and>
              cbt_compare cbt' = - 1 \<and> cbt_slot cbt' = 0 \<and>
              cbt_ins_head cbt' = None \<and> cbt_ins cbt' = None \<and> \<not> cbt_max_record cbt'"
    by simp
qed

theorem max_recno_skips_probe_witness:
  "col_search_position ex_store ex_collab ex_btree () UINT64_MAX (Some 5) ex_cursor
     = Some (Inr (At_leaf 5 ex_cursor ex_btree ())) \<and>
   past_page ex_collab (page_at ex_store (ref_page (ref_at ex_store 5))) UINT64_MAX \<and>
   (\<exists>cbt'. wt_col_search ex_store ex_collab ex_btree () UINT64_MAX (Some 5) ex_cursor
             = Some (Inr (cbt', ex_btree, ())) \<and>
           cbt_ins_head cbt' = Some [\<lparr>ins_recno = 170, ins_upd = 8\<rparr>] \<and>
           cbt_ins cbt' = None \<and> cbt_compare cbt' = - 1 \<and> cbt_max_record cbt') \<and>
   ref_home (ref_at ex_store 2) \<noteq> None \<and>
   check_leaf_key_range ex_store UINT64_MAX 2 (cursor_pos_clear ex_cursor)
     = Inr (ex_cursor\<lparr>cbt_compare := - 1\<rparr>) \<and>
   (\<exists>cbt'. wt_col_search ex_store ex_collab ex_btree () UINT64_MAX (Some 2) ex_cursor
             = Some (Inr (cbt', ex_btree, ())) \<and>
           cbt_compare cbt' = - 1 \<and> cbt_slot cbt' = 0 \<and>
           cbt_ins_head cbt' = None \<and> cbt_ins cbt' = None \<and> \<not> cbt_max_record cbt')"
proof -
  have pos: "col_search_position ex_store ex_collab ex_btree () UINT64_MAX (Some 5) ex_cursor
     = Some (Inr (At_leaf 5 ex_cursor ex_btree ()))"
    by (simp add: eval_defs ex_defs)
  have past: "past_page ex_collab (page_at ex_store (ref_page (ref_at ex_store 5))) UINT64_MAX"
    by (simp add: past_page_def UINT64_MAX_def ex_defs)
  have app: "col_append (page_at ex_store (ref_page (ref_at ex_store 5)))
               = Some [\<lparr>ins_recno = 170, ins_upd = 8\<rparr>]"
    by (simp add: ex_defs)
  have h2: "ref_home (ref_at ex_store 2) \<noteq> None" by (simp add: ex_defs)
  have chk: "check_leaf_key_range ex_store UINT64_MAX 2 (cursor_pos_clear ex_cursor)
     = Inr (ex_cursor\<lparr>cbt_compare := - 1\<rparr>)"
    by (simp add: eval_defs ex_defs)
  have nz: "cbt_compare (ex_cursor\<lparr>cbt_compare := - 1\<rparr>) \<noteq> 0" by simp
  note a = max_recno_skips_probe [of ex_store ex_collab ex_btree "()" "Some 5" ex_cursor 5
      ex_cursor ex_btree "()" 2 "ex_cursor\<lparr>cbt_compare := - 1\<rparr>"]
  have p1: "\<exists>cbt'. wt_col_search ex_store ex_collab ex_btree () UINT64_MAX (Some 5) ex_cursor
             = Some (Inr (cbt', ex_btree, ())) \<and>
           cbt_ins_head cbt' = Some [\<lparr>ins_recno = 170, ins_upd = 8\<rparr>] \<and>
           cbt_ins cbt' = None \<and> cbt_compare cbt' = - 1 \<and> cbt_max_record cbt'"
    using a pos past app by auto
  have p2: "\<exists>cbt'. wt_col_search ex_store ex_collab ex_btree () UINT64_MAX (Some 2) ex_cursor
             = Some (Inr (cbt', ex_btree, ())) \<and>
           cbt_compare cbt' = - 1 \<and> cbt_slot cbt' = 0 \<and>
           cbt_ins_head cbt' = None \<and> cbt_ins cbt' = None \<and> \<not> cbt_max_record cbt'"
    using a h2 chk nz by simp
  from pos past p1 h2 chk p2 show ?thesis by (intro conjI)
qed

text \<open>
  The claim as stated fails on the early return: leaf 2 has a parent, a valid hint and
  a right sibling that starts at 200, and \<^verbatim>\<open>UINT64_MAX\<close> lies past the end of its page;
  the search returns with \<open>ins_head\<close> null and \<^verbatim>\<open>MAX_RECORD\<close> clear, also for a cursor
  that already references the leaf.
\<close>

theorem max_recno_skips_probe_counterexample:
  "wt_col_search ex_store ex_collab ex_btree () UINT64_MAX (Some 2)
       (ex_cursor\<lparr>cbt_ref := Some 2\<rparr>) =
     Some (Inr (\<lparr>cbt_ref = Some 2, cbt_recno = 0, cbt_slot = 0, cbt_compare = - 1,
                 cbt_ins_head = None, cbt_ins = None, cbt_max_record = False\<rparr>,
                ex_btree, ())) \<and>
   past_page ex_collab (page_at ex_store (ref_page (ref_at ex_store 2))) UINT64_MAX \<and>
   col_append (page_at ex_store (ref_page (ref_at ex_store 2))) = Some []"
  by (simp add: eval_defs past_page_def ex_defs)

text \<open>
  C9, amended. Scenario S2: the search for record 50 with a pinned leaf of the page
  that starts at 100. If the leaf has a parent (and \<open>leaf.key.recno = 100\<close>), the search
  returns \<open>compare = 1\<close> and \<open>slot = 0\<close> and leaves \<open>cursor.ref\<close> as it was on entry: it
  is the supplied leaf when the cursor already referenced it. If the leaf has no
  parent, the search returns \<open>compare = 1\<close> with \<open>cursor.ref\<close> the supplied leaf and
  \<open>slot\<close> at \<^verbatim>\<open>UINT32_MAX\<close>.
\<close>

theorem before_pinned_leaf:
  "(ref_home (ref_at s l) \<noteq> None \<and> key_of s l = 100 \<longrightarrow>
      (\<exists>cbt'. wt_col_search s c btree w 50 (Some l) cbt = Some (Inr (cbt', btree, w)) \<and>
              cbt_compare cbt' = 1 \<and> cbt_slot cbt' = 0 \<and> cbt_ref cbt' = cbt_ref cbt)) \<and>
   (ref_home (ref_at s l) = None \<and>
    pg_type (page_at s (ref_page (ref_at s l))) = WT_PAGE_COL_FIX \<and>
    pg_fix_recno (page_at s (ref_page (ref_at s l))) = 100 \<longrightarrow>
      (\<exists>cbt'. wt_col_search s c btree w 50 (Some l) cbt = Some (Inr (cbt', btree, w)) \<and>
              cbt_compare cbt' = 1 \<and> cbt_slot cbt' = UINT32_MAX \<and> cbt_ref cbt' = Some l))"
proof (intro conjI impI)
  assume a: "ref_home (ref_at s l) \<noteq> None \<and> key_of s l = 100"
  then obtain home where h: "ref_home (ref_at s l) = Some home" by auto
  have chk: "check_leaf_key_range s 50 l (cursor_pos_clear cbt)
               = Inr ((cursor_pos_clear cbt)\<lparr>cbt_compare := 1\<rparr>)"
    using a by (simp add: check_leaf_key_range_def)
  have "wt_col_search s c btree w 50 (Some l) cbt
          = Some (Inr ((cursor_pos_clear cbt)\<lparr>cbt_compare := 1, cbt_slot := 0\<rparr>, btree, w))"
    by (simp add: wt_col_search_def col_search_position_def h chk)
  moreover have "cbt_ref ((cursor_pos_clear cbt)\<lparr>cbt_compare := 1, cbt_slot := 0\<rparr>) = cbt_ref cbt"
    by (simp add: cleared_fields)
  ultimately show "\<exists>cbt'. wt_col_search s c btree w 50 (Some l) cbt = Some (Inr (cbt', btree, w)) \<and>
              cbt_compare cbt' = 1 \<and> cbt_slot cbt' = 0 \<and> cbt_ref cbt' = cbt_ref cbt"
    by simp
next
  assume a: "ref_home (ref_at s l) = None \<and>
    pg_type (page_at s (ref_page (ref_at s l))) = WT_PAGE_COL_FIX \<and>
    pg_fix_recno (page_at s (ref_page (ref_at s l))) = 100"
  have bef: "before_page (page_at s (ref_page (ref_at s l))) 50"
    using a by (simp add: before_page_def)
  have "wt_col_search s c btree w 50 (Some l) cbt
          = Some (Inr (leaf_search s c 50 l (cursor_pos_clear cbt), btree, w))"
    using a by (simp add: wt_col_search_def col_search_position_def)
  then show "\<exists>cbt'. wt_col_search s c btree w 50 (Some l) cbt = Some (Inr (cbt', btree, w)) \<and>
              cbt_compare cbt' = 1 \<and> cbt_slot cbt' = UINT32_MAX \<and> cbt_ref cbt' = Some l"
    by (simp add: leaf_search_before [OF bef])
qed

theorem before_pinned_leaf_witness:
  "ref_home (ref_at ex_store 2) \<noteq> None \<and> key_of ex_store 2 = 100 \<and>
   (\<exists>cbt'. wt_col_search ex_store ex_collab ex_btree () 50 (Some 2) (ex_cursor\<lparr>cbt_ref := Some 2\<rparr>)
             = Some (Inr (cbt', ex_btree, ())) \<and>
           cbt_compare cbt' = 1 \<and> cbt_slot cbt' = 0 \<and> cbt_ref cbt' = Some 2) \<and>
   ref_home (ref_at ex_store 4) = None \<and>
   (\<exists>cbt'. wt_col_search ex_store ex_collab ex_btree () 50 (Some 4) ex_cursor
             = Some (Inr (cbt', ex_btree, ())) \<and>
           cbt_compare cbt' = 1 \<and> cbt_slot cbt' = UINT32_MAX \<and> cbt_ref cbt' = Some 4)"
proof -
  have h2: "ref_home (ref_at ex_store 2) \<noteq> None \<and> key_of ex_store 2 = 100"
    by (simp add: key_of_def ex_defs)
  have h4: "ref_home (ref_at ex_store 4) = None \<and>
    pg_type (page_at ex_store (ref_page (ref_at ex_store 4))) = WT_PAGE_COL_FIX \<and>
    pg_fix_recno (page_at ex_store (ref_page (ref_at ex_store 4))) = 100"
    by (simp add: ex_defs)
  have r: "cbt_ref (ex_cursor\<lparr>cbt_ref := Some 2\<rparr>) = Some 2" by simp
  from before_pinned_leaf [of ex_store 2 ex_collab ex_btree "()" "ex_cursor\<lparr>cbt_ref := Some 2\<rparr>"]
       before_pinned_leaf [of ex_store 4 ex_collab ex_btree "()" ex_cursor]
       h2 h4 r
  show ?thesis by simp
qed

text \<open>
  The scenario as stated fails on both paths: with a parent, \<open>ref\<close> is not set to the
  leaf; without one, \<open>slot\<close> is not 0.
\<close>

theorem before_pinned_leaf_counterexample:
  "wt_col_search ex_store ex_collab ex_btree () 50 (Some 2) ex_cursor =
     Some (Inr (\<lparr>cbt_ref = None, cbt_recno = 0, cbt_slot = 0, cbt_compare = 1,
                 cbt_ins_head = None, cbt_ins = None, cbt_max_record = False\<rparr>,
                ex_btree, ())) \<and>
   wt_col_search ex_store ex_collab ex_btree () 50 (Some 4) ex_cursor =
     Some (Inr (\<lparr>cbt_ref = Some 4, cbt_recno = 50, cbt_slot = 4294967295, cbt_compare = 1,
                 cbt_ins_head = None, cbt_ins = None, cbt_max_record = False\<rparr>,
                ex_btree, ())) \<and>
   pg_fix_recno (page_at ex_store (ref_page (ref_at ex_store 2))) = 100 \<and>
   pg_fix_recno (page_at ex_store (ref_page (ref_at ex_store 4))) = 100"
  by (simp add: eval_defs ex_defs)



end
